theory Spec2Isabelle
  imports Main "HOL-Library.Option_ord" "HOL-Library.Multiset"
begin

section \<open>The schema of \<^verbatim>\<open>sanskrit/schema.py\<close>\<close>

text \<open>
  The source is a declarative SQLAlchemy schema: classes with columns, foreign keys,
  relationships and association proxies. A mapped class becomes a record of its columns
  (a nullable column has an option type, a primary key does not), class inheritance with
  columns of its own becomes record extension, a table becomes the list of its rows, and a
  relationship or proxy becomes a function that reads the tables.
\<close>

subsection \<open>Base classes and enumerations\<close>

record SimpleBase =
  id :: nat
  name :: "string option"

record EnumBase = SimpleBase +
  abbr :: "string option"

type_synonym Person = EnumBase
type_synonym Number = EnumBase
type_synonym Mode = EnumBase
type_synonym Voice = EnumBase
type_synonym Gender = EnumBase
type_synonym Case = EnumBase
type_synonym VClass = EnumBase
type_synonym Modification = EnumBase

type_synonym Tag = SimpleBase

definition VERB :: nat where "VERB = 1"
definition NOUN :: nat where "NOUN = 2"
definition PRONOUN :: nat where "PRONOUN = 3"
definition ADJECTIVE :: nat where "ADJECTIVE = 4"
definition PARTICIPLE :: nat where "PARTICIPLE = 5"
definition INDECLINABLE :: nat where "INDECLINABLE = 6"
definition VERBAL_INDECLINABLE :: nat where "VERBAL_INDECLINABLE = 7"
definition GERUND :: nat where "GERUND = 8"
definition INFINITIVE :: nat where "INFINITIVE = 9"
definition PERFECT_INDECLINABLE :: nat where "PERFECT_INDECLINABLE = 10"
definition NOUN_PREFIX :: nat where "NOUN_PREFIX = 11"
definition VERB_PREFIX :: nat where "VERB_PREFIX = 12"

subsection \<open>Prefixes, roots, stems and forms\<close>

record Prefix = SimpleBase +
  pos_id :: "nat option"

record Root = SimpleBase +
  basis_id :: "nat option"
  discriminator :: "int option"

record Stem = SimpleBase +
  gender_id :: "nat option"
  pos_id :: "nat option"
  dependent :: bool

text \<open>
  \<^verbatim>\<open>ParticipleStem\<close>, \<^verbatim>\<open>Verb\<close> and \<^verbatim>\<open>Nominal\<close> have tables of their own, joined to the
  base table on \<open>id\<close>; their records are the rows of those tables.
\<close>

record ParticipleStem =
  id :: nat
  root_id :: "nat option"
  mode_id :: "nat option"
  voice_id :: "nat option"

record Form = SimpleBase +
  pos_id :: "nat option"

record Verb =
  id :: nat
  root_id :: "nat option"
  vclass_id :: "nat option"
  person_id :: "nat option"
  number_id :: "nat option"
  mode_id :: "nat option"
  voice_id :: "nat option"

record Nominal =
  id :: nat
  stem_id :: "nat option"
  gender_id :: "nat option"
  case_id :: "nat option"
  number_id :: "nat option"
  compounded :: "bool option"

subsection \<open>Associations\<close>

record Paradigm =
  id :: nat
  root_id :: "nat option"
  vclass_id :: "nat option"
  voice_id :: "nat option"
  default :: bool

text \<open>
  \<^verbatim>\<open>RootPrefixAssociation\<close> and \<^verbatim>\<open>RootModAssociation\<close> declare the same three columns
  \<open>id\<close>, \<open>root_id\<close>, \<open>position\<close> next to the column of the item they link. The three are
  the parent record, so that the functions on ordered collections are written once for
  both classes. A position is an index into the owner's list, a natural number; it is null
  on an association that no list holds yet.
\<close>

record OrderedAssociation =
  id :: nat
  root_id :: "nat option"
  position :: "nat option"

record RootPrefixAssociation = OrderedAssociation +
  prefix_id :: "nat option"

record RootModAssociation = OrderedAssociation +
  modification_id :: "nat option"

text \<open>
  \<^verbatim>\<open>RootPrefixAssociation.__init__(self, prefix)\<close> and
  \<^verbatim>\<open>RootModAssociation.__init__(self, modification)\<close> set the linked item only.
\<close>

definition RootPrefixAssociation_init :: "nat \<Rightarrow> 'a Prefix_scheme \<Rightarrow> RootPrefixAssociation" where
  "RootPrefixAssociation_init new_id prefix =
     \<lparr>OrderedAssociation.id = new_id, root_id = None, position = None,
      prefix_id = Some (SimpleBase.id prefix)\<rparr>"

definition RootModAssociation_init :: "nat \<Rightarrow> Modification \<Rightarrow> RootModAssociation" where
  "RootModAssociation_init new_id modification =
     \<lparr>OrderedAssociation.id = new_id, root_id = None, position = None,
      modification_id = Some (SimpleBase.id modification)\<rparr>"

subsection \<open>The database\<close>

record DB =
  person_table :: "Person list"
  number_table :: "Number list"
  mode_table :: "Mode list"
  voice_table :: "Voice list"
  gender_table :: "Gender list"
  case_table :: "Case list"
  vclass_table :: "VClass list"
  modification_table :: "Modification list"
  tag_table :: "Tag list"
  prefix_table :: "Prefix list"
  root_table :: "Root list"
  stem_table :: "Stem list"
  participlestem_table :: "ParticipleStem list"
  form_table :: "Form list"
  verb_table :: "Verb list"
  nominal_table :: "Nominal list"
  paradigm_table :: "Paradigm list"
  root_prefix_association_table :: "RootPrefixAssociation list"
  root_mod_association_table :: "RootModAssociation list"

definition empty_DB :: DB where
  "empty_DB =
     \<lparr>person_table = [], number_table = [], mode_table = [], voice_table = [],
      gender_table = [], case_table = [], vclass_table = [], modification_table = [],
      tag_table = [], prefix_table = [], root_table = [], stem_table = [],
      participlestem_table = [], form_table = [], verb_table = [], nominal_table = [],
      paradigm_table = [], root_prefix_association_table = [],
      root_mod_association_table = []\<rparr>"

subsection \<open>Polymorphic identities\<close>

text \<open>
  Each of the four hierarchies is mapped with \<^verbatim>\<open>polymorphic_on\<close> a column of the base
  table, and each subclass declares its \<^verbatim>\<open>polymorphic_identity\<close>. The class of an entity
  is the class whose identity the column holds; the base class declares no identity and is
  the class of a row whose column is null. A value that no class declares has no class
  (the mapper refuses to load such a row).
\<close>

datatype PrefixClass = Prefix | VerbPrefix | NounPrefix

definition Prefix_class :: "'a Prefix_scheme \<Rightarrow> PrefixClass option" where
  "Prefix_class p =
     (case Prefix.pos_id p of
        None \<Rightarrow> Some Prefix
      | Some t \<Rightarrow>
          if t = VERB_PREFIX then Some VerbPrefix
          else if t = NOUN_PREFIX then Some NounPrefix
          else None)"

datatype RootClass = Root | PrefixedRoot | ModifiedRoot | PrefixedModifiedRoot

definition Root_class :: "'a Root_scheme \<Rightarrow> RootClass option" where
  "Root_class r =
     (case discriminator r of
        None \<Rightarrow> Some Root
      | Some d \<Rightarrow>
          if d = 1 then Some PrefixedRoot
          else if d = 2 then Some ModifiedRoot
          else if d = 3 then Some PrefixedModifiedRoot
          else None)"

datatype StemClass = Stem | NounStem | PronounStem | AdjectiveStem | ParticipleStem

definition Stem_class :: "'a Stem_scheme \<Rightarrow> StemClass option" where
  "Stem_class s =
     (case Stem.pos_id s of
        None \<Rightarrow> Some Stem
      | Some t \<Rightarrow>
          if t = NOUN then Some NounStem
          else if t = PRONOUN then Some PronounStem
          else if t = ADJECTIVE then Some AdjectiveStem
          else if t = PARTICIPLE then Some ParticipleStem
          else None)"

datatype FormClass = Form | Indeclinable | Verb | VerbalIndeclinable | Infinitive | Gerund
  | PerfectIndeclinable | Noun | Pronoun | Adjective | Participle

definition Form_class :: "'a Form_scheme \<Rightarrow> FormClass option" where
  "Form_class f =
     (case Form.pos_id f of
        None \<Rightarrow> Some Form
      | Some t \<Rightarrow>
          if t = INDECLINABLE then Some Indeclinable
          else if t = VERB then Some Verb
          else if t = VERBAL_INDECLINABLE then Some VerbalIndeclinable
          else if t = INFINITIVE then Some Infinitive
          else if t = GERUND then Some Gerund
          else if t = PERFECT_INDECLINABLE then Some PerfectIndeclinable
          else if t = NOUN then Some Noun
          else if t = PRONOUN then Some Pronoun
          else if t = ADJECTIVE then Some Adjective
          else if t = PARTICIPLE then Some Participle
          else None)"

subsection \<open>Relationships\<close>

text \<open>
  A many-to-one \<^verbatim>\<open>relationship(Target)\<close> follows the foreign key from the declaring table
  to the target's table: it is the target row whose primary key is the value of that
  column, and \<^verbatim>\<open>None\<close> when the column is null or no such row exists.
\<close>

definition many_to_one :: "('r \<Rightarrow> nat) \<Rightarrow> 'r list \<Rightarrow> nat option \<Rightarrow> 'r option" where
  "many_to_one pk tbl fk = (case fk of None \<Rightarrow> None | Some i \<Rightarrow> find (\<lambda>r. pk r = i) tbl)"

text \<open>
  The Python exceptions that reading or writing an attribute of a mapped object raises.
\<close>

datatype py_error = AttributeError | TypeError | AssertionError | ObjectDeletedError

text \<open>
  Where the target is one of the four polymorphic hierarchies, the mapper builds the object
  of the row's class, and raises \<^verbatim>\<open>AssertionError\<close> for a row whose discriminator no class
  declares.
\<close>

definition many_to_one_polymorphic :: "('r \<Rightarrow> 'c option) \<Rightarrow> ('r \<Rightarrow> nat) \<Rightarrow> 'r list \<Rightarrow> nat option
    \<Rightarrow> py_error + 'r option" where
  "many_to_one_polymorphic cls pk tbl fk =
     (case many_to_one pk tbl fk of
        None \<Rightarrow> Inr None
      | Some x \<Rightarrow> (case cls x of None \<Rightarrow> Inl AssertionError | Some c \<Rightarrow> Inr (Some x)))"

text \<open>\<^verbatim>\<open>Root.basis = relationship('Root', remote_side=[id])\<close>\<close>

definition Root_basis :: "DB \<Rightarrow> 'a Root_scheme \<Rightarrow> Root option" where
  "Root_basis db r = many_to_one SimpleBase.id (root_table db) (basis_id r)"

text \<open>\<^verbatim>\<open>Root.paradigms = relationship('Paradigm')\<close>: the rows of \<open>paradigm\<close> that point at the root.\<close>

definition Root_paradigms :: "DB \<Rightarrow> 'a Root_scheme \<Rightarrow> Paradigm list" where
  "Root_paradigms db r =
     filter (\<lambda>p. Paradigm.root_id p = Some (SimpleBase.id r)) (paradigm_table db)"

text \<open>
  \<^verbatim>\<open>default = Column(Boolean, default=False)\<close> is an ordinary column: marking the paradigm
  with a given id as default is an assignment to it, which the schema never rejects. The
  default paradigms of a root are those of its paradigms that have the flag.
\<close>

definition mark_default :: "nat \<Rightarrow> DB \<Rightarrow> DB" where
  "mark_default paradigm_id db =
     db\<lparr>paradigm_table :=
          map (\<lambda>p. if Paradigm.id p = paradigm_id then p\<lparr>default := True\<rparr> else p)
              (paradigm_table db)\<rparr>"

definition default_paradigms :: "DB \<Rightarrow> 'a Root_scheme \<Rightarrow> Paradigm list" where
  "default_paradigms db r = filter default (Root_paradigms db r)"

definition Paradigm_vclass :: "DB \<Rightarrow> Paradigm \<Rightarrow> VClass option" where
  "Paradigm_vclass db p = many_to_one SimpleBase.id (vclass_table db) (Paradigm.vclass_id p)"

definition Paradigm_voice :: "DB \<Rightarrow> Paradigm \<Rightarrow> Voice option" where
  "Paradigm_voice db p = many_to_one SimpleBase.id (voice_table db) (Paradigm.voice_id p)"

text \<open>
  \<^verbatim>\<open>association_proxy('paradigms', 'vclass')\<close> reads the attribute off every member of
  the collection, in the collection's order.
\<close>

definition Root_vclasses :: "DB \<Rightarrow> 'a Root_scheme \<Rightarrow> VClass option list" where
  "Root_vclasses db r = map (Paradigm_vclass db) (Root_paradigms db r)"

definition Root_voices :: "DB \<Rightarrow> 'a Root_scheme \<Rightarrow> Voice option list" where
  "Root_voices db r = map (Paradigm_voice db) (Root_paradigms db r)"

text \<open>
  \<^verbatim>\<open>Stem.gender = relationship(Tag)\<close> and \<^verbatim>\<open>Stem.pos = relationship(Tag)\<close>: both name
  \<^verbatim>\<open>Tag\<close> as their target, and the only foreign key from \<open>stem\<close> to \<open>tag\<close> is \<open>pos_id\<close>.
\<close>

definition Stem_gender :: "DB \<Rightarrow> Stem \<Rightarrow> Tag option" where
  "Stem_gender db s = many_to_one SimpleBase.id (tag_table db) (Stem.pos_id s)"

definition Stem_pos :: "DB \<Rightarrow> Stem \<Rightarrow> Tag option" where
  "Stem_pos db s = many_to_one SimpleBase.id (tag_table db) (Stem.pos_id s)"






subsection \<open>Ordered collections and proxies\<close>

text \<open>
  \<^verbatim>\<open>PrefixedRoot.prefix_assocs\<close> is the relationship to \<^verbatim>\<open>RootPrefixAssociation\<close> with
  \<^verbatim>\<open>order_by='RootPrefixAssociation.position'\<close>: the rows of that table that point at the
  root, by position. \<^verbatim>\<open>ModifiedRoot.mod_assocs\<close> is the same over
  \<^verbatim>\<open>RootModAssociation\<close>. A null position sorts first.
\<close>

definition ordered_assocs :: "nat \<Rightarrow> 'a OrderedAssociation_scheme list \<Rightarrow> 'a OrderedAssociation_scheme list" where
  "ordered_assocs owner tbl = sort_key position (filter (\<lambda>a. root_id a = Some owner) tbl)"

definition PrefixedRoot_prefix_assocs :: "DB \<Rightarrow> 'a Root_scheme \<Rightarrow> RootPrefixAssociation list" where
  "PrefixedRoot_prefix_assocs db r =
     ordered_assocs (SimpleBase.id r) (root_prefix_association_table db)"

definition ModifiedRoot_mod_assocs :: "DB \<Rightarrow> 'a Root_scheme \<Rightarrow> RootModAssociation list" where
  "ModifiedRoot_mod_assocs db r =
     ordered_assocs (SimpleBase.id r) (root_mod_association_table db)"

text \<open>
  \<^verbatim>\<open>PrefixedModifiedRoot(PrefixedRoot, ModifiedRoot)\<close> inherits \<^verbatim>\<open>prefix_assocs\<close> from
  \<^verbatim>\<open>PrefixedRoot\<close> and declares \<^verbatim>\<open>mod_assocs\<close> again, with the declaration of
  \<^verbatim>\<open>ModifiedRoot\<close>.
\<close>

definition PrefixedModifiedRoot_prefix_assocs :: "DB \<Rightarrow> 'a Root_scheme \<Rightarrow> RootPrefixAssociation list" where
  "PrefixedModifiedRoot_prefix_assocs db r = PrefixedRoot_prefix_assocs db r"

definition PrefixedModifiedRoot_mod_assocs :: "DB \<Rightarrow> 'a Root_scheme \<Rightarrow> RootModAssociation list" where
  "PrefixedModifiedRoot_mod_assocs db r =
     ordered_assocs (SimpleBase.id r) (root_mod_association_table db)"

subsection \<open>Attributes by class\<close>

text \<open>
  The mapped attributes of every class of the four hierarchies: the columns, relationships
  and proxies that the class declares or inherits (the lists named \<open>inherited\<close> are
  those of the classes \<^verbatim>\<open>Root\<close>, \<^verbatim>\<open>Stem\<close>, \<^verbatim>\<open>Form\<close>, \<^verbatim>\<open>VerbalIndeclinable\<close> and
  \<^verbatim>\<open>Nominal\<close>), and the attributes that a \<^verbatim>\<open>backref\<close> of another class adds
  (\<open>participle_stems\<close> and \<open>verbs\<close> on \<^verbatim>\<open>Root\<close>, \<open>forms\<close> on \<^verbatim>\<open>Stem\<close>). \<^verbatim>\<open>VerbPrefix\<close>
  and \<^verbatim>\<open>NounPrefix\<close> declare none of their own.
\<close>

fun Prefix_attributes :: "PrefixClass \<Rightarrow> string list" where
  "Prefix_attributes c = [''id'', ''name'', ''pos_id'', ''pos'']"

definition Root_inherited :: "string list" where
  "Root_inherited =
     [''id'', ''name'', ''basis_id'', ''discriminator'', ''basis'', ''paradigms'', ''vclasses'',
      ''voices'', ''participle_stems'', ''verbs'']"

fun Root_attributes :: "RootClass \<Rightarrow> string list" where
  "Root_attributes Root = Root_inherited"
| "Root_attributes PrefixedRoot = Root_inherited @ [''prefix_assocs'', ''prefixes'']"
| "Root_attributes ModifiedRoot = Root_inherited @ [''mod_assocs'', ''modifications'']"
| "Root_attributes PrefixedModifiedRoot =
     Root_inherited @ [''prefix_assocs'', ''prefixes'', ''mod_assocs'', ''modifications'']"

definition Stem_inherited :: "string list" where
  "Stem_inherited =
     [''id'', ''name'', ''gender_id'', ''pos_id'', ''dependent'', ''gender'', ''pos'', ''forms'']"

fun Stem_attributes :: "StemClass \<Rightarrow> string list" where
  "Stem_attributes ParticipleStem =
     Stem_inherited @ [''root_id'', ''mode_id'', ''voice_id'', ''root'', ''mode'', ''voice'']"
| "Stem_attributes c = Stem_inherited"





text \<open>
  Reading one of these attributes by name off an object of a class, on which the attribute
  has not been assigned: Python raises \<^verbatim>\<open>AttributeError\<close> when the class has no such
  attribute, and the schema has no other guard on access by variant.
\<close>

definition getattr_error :: "string list \<Rightarrow> string \<Rightarrow> py_error option" where
  "getattr_error attributes a = (if a \<in> set attributes then None else Some AttributeError)"

text \<open>
  Reading \<^verbatim>\<open>prefix_assocs\<close> and \<^verbatim>\<open>mod_assocs\<close> off a root as the mapper loads it: an
  object of the class of its row, on which nothing has been assigned.
\<close>

definition Root_getattr_prefix_assocs :: "DB \<Rightarrow> Root \<Rightarrow> py_error + RootPrefixAssociation list" where
  "Root_getattr_prefix_assocs db r =
     (case Root_class r of
        None \<Rightarrow> Inl AssertionError
      | Some c \<Rightarrow>
          (case getattr_error (Root_attributes c) ''prefix_assocs'' of
             Some e \<Rightarrow> Inl e
           | None \<Rightarrow> Inr (PrefixedRoot_prefix_assocs db r)))"

definition Root_getattr_mod_assocs :: "DB \<Rightarrow> Root \<Rightarrow> py_error + RootModAssociation list" where
  "Root_getattr_mod_assocs db r =
     (case Root_class r of
        None \<Rightarrow> Inl AssertionError
      | Some c \<Rightarrow>
          (case getattr_error (Root_attributes c) ''mod_assocs'' of
             Some e \<Rightarrow> Inl e
           | None \<Rightarrow> Inr (ModifiedRoot_mod_assocs db r)))"

subsection \<open>Objects in a session\<close>

text \<open>
  A relationship attribute is loaded when it is first read and then stays on the object
  until the object is expired, whatever becomes of the foreign key. A session is the rows
  as its objects hold them and as the next flush writes them, together with what the
  objects have loaded: for a nominal (by id) its \<^verbatim>\<open>stem\<close>, and for a stem (by id) the
  value bound to its attribute \<^verbatim>\<open>root\<close>, which is the loaded relationship of a
  \<^verbatim>\<open>ParticipleStem\<close> and a plain Python attribute on a stem of another class.
\<close>

record Session =
  tables :: DB
  Nominal_stem_loaded :: "nat \<rightharpoonup> Stem option"
  Stem_root_bound :: "nat \<rightharpoonup> Root option"

definition new_Session :: "DB \<Rightarrow> Session" where
  "new_Session db = \<lparr>tables = db, Nominal_stem_loaded = Map.empty, Stem_root_bound = Map.empty\<rparr>"

text \<open>
  \<^verbatim>\<open>Nominal.stem = relationship(Stem, backref='forms')\<close>: the loaded stem if there is one,
  else the stem that \<open>stem_id\<close> names now, which is then kept. The stem object keeps the
  class it was loaded as.
\<close>

definition Nominal_stem :: "Session \<Rightarrow> Nominal \<Rightarrow> (py_error + Stem option) \<times> Session" where
  "Nominal_stem \<sigma> n =
     (case Nominal_stem_loaded \<sigma> (Nominal.id n) of
        Some v \<Rightarrow> (Inr v, \<sigma>)
      | None \<Rightarrow>
          (case many_to_one_polymorphic Stem_class SimpleBase.id (stem_table (tables \<sigma>))
                  (Nominal.stem_id n) of
             Inl e \<Rightarrow> (Inl e, \<sigma>)
           | Inr v \<Rightarrow>
               (Inr v, \<sigma>\<lparr>Nominal_stem_loaded := (Nominal_stem_loaded \<sigma>)(Nominal.id n \<mapsto> v)\<rparr>)))"

text \<open>
  Reading \<^verbatim>\<open>root\<close> off a stem object. What is bound to the attribute is returned as it
  is. Otherwise a \<^verbatim>\<open>ParticipleStem\<close> loads \<^verbatim>\<open>root = relationship(Root,
  backref='participle_stems')\<close> through \<open>root_id\<close> of its row of \<open>participlestem\<close>, which
  must exist (\<^verbatim>\<open>ObjectDeletedError\<close>), and keeps it; a stem of another class has no such
  attribute.
\<close>

definition Stem_getattr_root :: "Session \<Rightarrow> Stem \<Rightarrow> (py_error + Root option) \<times> Session" where
  "Stem_getattr_root \<sigma> s =
     (case Stem_root_bound \<sigma> (SimpleBase.id s) of
        Some v \<Rightarrow> (Inr v, \<sigma>)
      | None \<Rightarrow>
          (case Stem_class s of
             None \<Rightarrow> (Inl AssertionError, \<sigma>)
           | Some c \<Rightarrow>
               (case getattr_error (Stem_attributes c) ''root'' of
                  Some e \<Rightarrow> (Inl e, \<sigma>)
                | None \<Rightarrow>
                    (case find (\<lambda>x. ParticipleStem.id x = SimpleBase.id s)
                            (participlestem_table (tables \<sigma>)) of
                       None \<Rightarrow> (Inl ObjectDeletedError, \<sigma>)
                     | Some row \<Rightarrow>
                         (case many_to_one_polymorphic Root_class SimpleBase.id
                                 (root_table (tables \<sigma>)) (ParticipleStem.root_id row) of
                            Inl e \<Rightarrow> (Inl e, \<sigma>)
                          | Inr v \<Rightarrow>
                              (Inr v,
                               \<sigma>\<lparr>Stem_root_bound :=
                                    (Stem_root_bound \<sigma>)(SimpleBase.id s \<mapsto> v)\<rparr>))))))"

text \<open>
  The assignment \<^verbatim>\<open>stem.root = r\<close> is never refused. It binds the attribute; on a
  \<^verbatim>\<open>ParticipleStem\<close> that is the relationship, so \<open>root_id\<close> of its row follows, and on a
  stem of another class it is a plain attribute of the Python object, which no table
  holds.
\<close>

definition Stem_setattr_root :: "Session \<Rightarrow> Stem \<Rightarrow> Root \<Rightarrow> Session" where
  "Stem_setattr_root \<sigma> s r =
     \<sigma>\<lparr>Stem_root_bound := (Stem_root_bound \<sigma>)(SimpleBase.id s \<mapsto> Some r),
       tables :=
         (if Stem_class s = Some ParticipleStem
          then (tables \<sigma>)\<lparr>participlestem_table :=
                 map (\<lambda>x. if ParticipleStem.id x = SimpleBase.id s
                           then x\<lparr>ParticipleStem.root_id := Some (SimpleBase.id r)\<rparr> else x)
                     (participlestem_table (tables \<sigma>))\<rparr>
          else tables \<sigma>)\<rparr>"

text \<open>
  The assignment \<^verbatim>\<open>stem.root_id = k\<close> to the column of the participle stem with a given
  id: the row changes, and what the stem has loaded as its \<^verbatim>\<open>root\<close> does not.
\<close>

definition ParticipleStem_set_root_id :: "nat \<Rightarrow> nat option \<Rightarrow> Session \<Rightarrow> Session" where
  "ParticipleStem_set_root_id i k \<sigma> =
     \<sigma>\<lparr>tables :=
         (tables \<sigma>)\<lparr>participlestem_table :=
            map (\<lambda>x. if ParticipleStem.id x = i
                      then x\<lparr>ParticipleStem.root_id := k\<rparr> else x)
                (participlestem_table (tables \<sigma>))\<rparr>\<rparr>"

text \<open>
  \<^verbatim>\<open>Participle.root = association_proxy('stem', 'root')\<close> is a view of the attribute
  \<^verbatim>\<open>root\<close> of the nominal's stem, for reading and for writing, and holds nothing itself.
  A read takes the stem and reads \<^verbatim>\<open>root\<close> off it; without a stem it gives \<^verbatim>\<open>None\<close>.
\<close>

definition Participle_root :: "Session \<Rightarrow> Nominal \<Rightarrow> (py_error + Root option) \<times> Session" where
  "Participle_root \<sigma> n =
     (case Nominal_stem \<sigma> n of
        (Inl e, \<sigma>') \<Rightarrow> (Inl e, \<sigma>')
      | (Inr None, \<sigma>') \<Rightarrow> (Inr None, \<sigma>')
      | (Inr (Some s), \<sigma>') \<Rightarrow> Stem_getattr_root \<sigma>' s)"

text \<open>
  An assignment \<^verbatim>\<open>participle.root = r\<close> takes the stem and assigns \<^verbatim>\<open>root\<close> on it.
  Without a stem the proxy calls its creator, the class \<^verbatim>\<open>Stem\<close>, with the value as a
  positional argument, which the constructor of a mapped class does not take.
\<close>

definition Participle_root_set :: "Session \<Rightarrow> Nominal \<Rightarrow> Root \<Rightarrow> (py_error + unit) \<times> Session" where
  "Participle_root_set \<sigma> n r =
     (case Nominal_stem \<sigma> n of
        (Inl e, \<sigma>') \<Rightarrow> (Inl e, \<sigma>')
      | (Inr None, \<sigma>') \<Rightarrow> (Inl TypeError, \<sigma>')
      | (Inr (Some s), \<sigma>') \<Rightarrow> (Inr (), Stem_setattr_root \<sigma>' s r))"

section \<open>Operations of the specification\<close>

text \<open>
  The source declares the schema only. The operations below are named by the
  specification and have no function in \<^verbatim>\<open>sanskrit/schema.py\<close>; each is written from the
  specification's words, over the records and relationships of the source.
\<close>

text \<open>
  Modelled from the spec: the error taxonomy of section 7 (the source defines no error
  values of its own).
\<close>

datatype error = DuplicateId | InvalidVariantFields | WrongVariant | PositionOutOfRange
  | NotFound | CyclicBasis | BasisChainTooLong

subsection \<open>Ordered association\<close>

text \<open>
  Modelled from the spec: \<^verbatim>\<open>append(owner, item) -> position\<close> of section 4.2 (the source
  only names SQLAlchemy's \<^verbatim>\<open>ordering_list('position')\<close> as the collection class, whose
  code is not in the repository). It "assigns the next contiguous position": the item
  becomes a row of the owner at the position that equals the owner's current count.
\<close>

definition append_assoc :: "nat \<Rightarrow> 'a OrderedAssociation_scheme \<Rightarrow> 'a OrderedAssociation_scheme list
    \<Rightarrow> 'a OrderedAssociation_scheme list \<times> nat" where
  "append_assoc owner item tbl =
     (let n = length (ordered_assocs owner tbl)
      in (tbl @ [item\<lparr>root_id := Some owner, position := Some n\<rparr>], n))"

text \<open>
  Modelled from the spec: \<^verbatim>\<open>insert_at(owner, item, position)\<close> of section 4.2, which
  "shifts subsequent items' positions up by one; fails with PositionOutOfRange if
  position > current length". The items shifted are the owner's rows at that position or
  after it.
\<close>

definition insert_at :: "nat \<Rightarrow> 'a OrderedAssociation_scheme \<Rightarrow> nat \<Rightarrow> 'a OrderedAssociation_scheme list
    \<Rightarrow> error + 'a OrderedAssociation_scheme list" where
  "insert_at owner item pos tbl =
     (if pos > length (ordered_assocs owner tbl) then Inl PositionOutOfRange
      else Inr (map (\<lambda>a. if root_id a = Some owner \<and> Some pos \<le> position a
                          then a\<lparr>position := map_option Suc (position a)\<rparr> else a) tbl
                @ [item\<lparr>root_id := Some owner, position := Some pos\<rparr>]))"

text \<open>
  Modelled from the spec: \<^verbatim>\<open>remove(owner, position)\<close> of section 4.2, which "removes and
  shifts subsequent items down by one; fails with NotFound if position absent".
\<close>

definition remove_assoc :: "nat \<Rightarrow> nat \<Rightarrow> 'a OrderedAssociation_scheme list
    \<Rightarrow> error + 'a OrderedAssociation_scheme list" where
  "remove_assoc owner pos tbl =
     (if \<not> list_ex (\<lambda>a. root_id a = Some owner \<and> position a = Some pos) tbl
      then Inl NotFound
      else Inr (map (\<lambda>a. if root_id a = Some owner \<and> Some pos < position a
                          then a\<lparr>position := map_option (\<lambda>p. p - 1) (position a)\<rparr> else a)
                  (filter (\<lambda>a. \<not> (root_id a = Some owner \<and> position a = Some pos)) tbl)))"

text \<open>
  Modelled from the spec: a call of one of the three mutators of section 4.2, with its
  arguments.
\<close>

datatype 'r assoc_op = Append nat 'r | InsertAt nat 'r nat | Remove nat nat

text \<open>Modelled from the spec: the \<open>owner\<close> argument of a call.\<close>

fun op_owner :: "'r assoc_op \<Rightarrow> nat" where
  "op_owner (Append owner item) = owner"
| "op_owner (InsertAt owner item pos) = owner"
| "op_owner (Remove owner pos) = owner"

text \<open>
  Modelled from the spec: the table after a call. By section 7 a call "either fully
  succeeds and leaves invariants intact, or fully fails and leaves prior state unchanged",
  so a failed call keeps the table.
\<close>

fun apply_op :: "'a OrderedAssociation_scheme list \<Rightarrow> 'a OrderedAssociation_scheme assoc_op
    \<Rightarrow> 'a OrderedAssociation_scheme list" where
  "apply_op tbl (Append owner item) = fst (append_assoc owner item tbl)"
| "apply_op tbl (InsertAt owner item pos) =
     (case insert_at owner item pos tbl of Inl e \<Rightarrow> tbl | Inr tbl' \<Rightarrow> tbl')"
| "apply_op tbl (Remove owner pos) =
     (case remove_assoc owner pos tbl of Inl e \<Rightarrow> tbl | Inr tbl' \<Rightarrow> tbl')"

text \<open>
  Modelled from the spec: "any sequence of append/insert_at/remove calls" (section 8), run
  from left to right; after a failed call the sequence goes on.
\<close>

definition apply_ops :: "'a OrderedAssociation_scheme list \<Rightarrow> 'a OrderedAssociation_scheme assoc_op list
    \<Rightarrow> 'a OrderedAssociation_scheme list" where
  "apply_ops tbl ops = foldl apply_op tbl ops"

text \<open>
  Modelled from the spec: the invariant of section 4.2, "positions for owner are exactly
  0..count-1 with no gaps or duplicates": read in position order, the positions of the
  owner's rows are \<open>0, 1, \<dots>, count - 1\<close>.
\<close>

definition contiguous :: "nat \<Rightarrow> 'a OrderedAssociation_scheme list \<Rightarrow> bool" where
  "contiguous owner tbl \<longleftrightarrow>
     map position (ordered_assocs owner tbl)
       = map Some [0 ..< length (ordered_assocs owner tbl)]"

subsection \<open>Ancestry\<close>

text \<open>
  Modelled from the spec: \<^verbatim>\<open>ultimate_basis(root) -> Root\<close> of section 4.4 (the source
  declares \<^verbatim>\<open>Root.basis\<close> and no traversal). "Follow basis references repeatedly until
  reaching a Root with no basis \<dots> maintain a visited-set keyed by entity id \<dots> Fails with
  CyclicBasis if the same id is revisited before termination, or BasisChainTooLong if a
  configured hop limit (default 32) is exceeded". The first argument after the database is
  the number of hops still allowed.
\<close>

fun ultimate_basis_from :: "DB \<Rightarrow> nat \<Rightarrow> nat list \<Rightarrow> Root \<Rightarrow> error + Root" where
  "ultimate_basis_from db 0 visited r =
     (case Root_basis db r of
        None \<Rightarrow> Inr r
      | Some b \<Rightarrow>
          if SimpleBase.id b \<in> set visited then Inl CyclicBasis
          else Inl BasisChainTooLong)"
| "ultimate_basis_from db (Suc hops) visited r =
     (case Root_basis db r of
        None \<Rightarrow> Inr r
      | Some b \<Rightarrow>
          if SimpleBase.id b \<in> set visited then Inl CyclicBasis
          else ultimate_basis_from db hops (SimpleBase.id b # visited) b)"

text \<open>Modelled from the spec: the "configured hop limit (default 32)" of section 4.4.\<close>

definition hop_limit :: nat where
  "hop_limit = 32"

text \<open>
  Modelled from the spec: the traversal from a root under a given limit, and under the
  default one. The visited set starts with the id of the root itself.
\<close>

definition ultimate_basis_within :: "nat \<Rightarrow> DB \<Rightarrow> Root \<Rightarrow> error + Root" where
  "ultimate_basis_within limit db r = ultimate_basis_from db limit [SimpleBase.id r] r"

definition ultimate_basis :: "DB \<Rightarrow> Root \<Rightarrow> error + Root" where
  "ultimate_basis db r = ultimate_basis_within hop_limit db r"

text \<open>
  Modelled from the spec: the chain "Root A \<rightarrow> basis B \<rightarrow> basis C" of section 8, as the list
  of the roots that following \<^verbatim>\<open>basis\<close> from a root reaches in at most \<open>n\<close> hops, nearest
  first.
\<close>

fun basis_chain :: "DB \<Rightarrow> nat \<Rightarrow> Root \<Rightarrow> Root list" where
  "basis_chain db 0 r = []"
| "basis_chain db (Suc n) r =
     (case Root_basis db r of None \<Rightarrow> [] | Some b \<Rightarrow> b # basis_chain db n b)"

section \<open>Example data\<close>

text \<open>
  The root \<open>gam\<close> with two prefixed roots built on it, two prefixed and modified roots, a
  noun stem, a participle stem with a participle, and a verb.
\<close>

definition sam :: Prefix where
  "sam = \<lparr>SimpleBase.id = 1, name = Some ''sam'', Prefix.pos_id = Some VERB_PREFIX\<rparr>"

definition upa :: Prefix where
  "upa = \<lparr>SimpleBase.id = 2, name = Some ''upa'', Prefix.pos_id = Some VERB_PREFIX\<rparr>"

definition nan :: Prefix where
  "nan = \<lparr>SimpleBase.id = 3, name = Some ''a'', Prefix.pos_id = Some NOUN_PREFIX\<rparr>"

definition causative :: Modification where
  "causative = \<lparr>SimpleBase.id = 1, name = Some ''causative'', abbr = Some ''c''\<rparr>"

definition desiderative :: Modification where
  "desiderative = \<lparr>SimpleBase.id = 2, name = Some ''desiderative'', abbr = Some ''d''\<rparr>"

definition masculine :: Gender where
  "masculine = \<lparr>SimpleBase.id = 1, name = Some ''masculine'', abbr = Some ''m''\<rparr>"

definition bhvadi :: VClass where
  "bhvadi = \<lparr>SimpleBase.id = 1, name = Some ''bhvadi'', abbr = Some ''1''\<rparr>"

definition divadi :: VClass where
  "divadi = \<lparr>SimpleBase.id = 4, name = Some ''divadi'', abbr = Some ''4''\<rparr>"

definition third_person :: Person where
  "third_person = \<lparr>SimpleBase.id = 3, name = Some ''third'', abbr = Some ''3''\<rparr>"

definition singular :: Number where
  "singular = \<lparr>SimpleBase.id = 1, name = Some ''singular'', abbr = Some ''s''\<rparr>"

definition present :: Mode where
  "present = \<lparr>SimpleBase.id = 1, name = Some ''present'', abbr = Some ''pres''\<rparr>"

definition parasmaipada :: Voice where
  "parasmaipada = \<lparr>SimpleBase.id = 1, name = Some ''parasmaipada'', abbr = Some ''P''\<rparr>"

definition noun_tag :: Tag where
  "noun_tag = \<lparr>SimpleBase.id = 2, name = Some ''noun''\<rparr>"

definition participle_tag :: Tag where
  "participle_tag = \<lparr>SimpleBase.id = 5, name = Some ''participle''\<rparr>"

definition gam :: Root where
  "gam = \<lparr>SimpleBase.id = 7, name = Some ''gam'', basis_id = None, discriminator = None\<rparr>"

definition upa_gam :: Root where
  "upa_gam = \<lparr>SimpleBase.id = 8, name = Some ''upa-gam'', basis_id = Some 7,
              discriminator = Some 1\<rparr>"

definition sam_upa_gam :: Root where
  "sam_upa_gam = \<lparr>SimpleBase.id = 9, name = Some ''sam-upa-gam'', basis_id = Some 8,
                  discriminator = Some 1\<rparr>"

definition sam_gamaya :: Root where
  "sam_gamaya = \<lparr>SimpleBase.id = 10, name = Some ''sam-gamaya'', basis_id = Some 7,
                 discriminator = Some 3\<rparr>"

definition upa_gamaya :: Root where
  "upa_gamaya = \<lparr>SimpleBase.id = 11, name = Some ''upa-gamaya'', basis_id = Some 7,
                 discriminator = Some 3\<rparr>"

definition nara :: Stem where
  "nara = \<lparr>SimpleBase.id = 1, name = Some ''nara'', Stem.gender_id = Some 1,
           Stem.pos_id = Some NOUN, dependent = False\<rparr>"

definition gata :: Stem where
  "gata = \<lparr>SimpleBase.id = 2, name = Some ''gata'', Stem.gender_id = Some 1,
           Stem.pos_id = Some PARTICIPLE, dependent = False\<rparr>"

definition gata_row :: ParticipleStem where
  "gata_row = \<lparr>ParticipleStem.id = 2, ParticipleStem.root_id = Some 7,
               ParticipleStem.mode_id = Some 1, ParticipleStem.voice_id = Some 1\<rparr>"

definition gatas :: Nominal where
  "gatas = \<lparr>Nominal.id = 5, stem_id = Some 2, Nominal.gender_id = Some 1, case_id = Some 1,
            Nominal.number_id = Some 1, compounded = Some False\<rparr>"

definition gacchati :: Verb where
  "gacchati = \<lparr>Verb.id = 6, Verb.root_id = Some 7, Verb.vclass_id = Some 1, person_id = Some 3,
               Verb.number_id = Some 1, Verb.mode_id = Some 1, Verb.voice_id = Some 1\<rparr>"

text \<open>
  A participle whose \<open>stem_id\<close> names the noun stem \<open>nara\<close>, as the foreign key to
  \<open>stem.id\<close> allows, and a verb whose keys are null or name no row.
\<close>

definition nara_participle :: Nominal where
  "nara_participle = \<lparr>Nominal.id = 8, stem_id = Some 1, Nominal.gender_id = Some 1, case_id = Some 1,
            Nominal.number_id = Some 1, compounded = Some False\<rparr>"


definition gacchati_form :: Form where
  "gacchati_form = \<lparr>SimpleBase.id = 6, name = Some ''gacchati'', Form.pos_id = Some VERB\<rparr>"

definition gam_bhvadi :: Paradigm where
  "gam_bhvadi = \<lparr>Paradigm.id = 1, Paradigm.root_id = Some 7, Paradigm.vclass_id = Some 1,
                 Paradigm.voice_id = Some 1, default = True\<rparr>"

definition upa_gam_divadi :: Paradigm where
  "upa_gam_divadi = \<lparr>Paradigm.id = 2, Paradigm.root_id = Some 8, Paradigm.vclass_id = Some 4,
                     Paradigm.voice_id = Some 1, default = False\<rparr>"

definition gam_divadi :: Paradigm where
  "gam_divadi = \<lparr>Paradigm.id = 3, Paradigm.root_id = Some 7, Paradigm.vclass_id = Some 4,
                 Paradigm.voice_id = None, default = False\<rparr>"

text \<open>The rows of the owner with id 9 are stored out of position order.\<close>

definition example_prefix_assocs :: "RootPrefixAssociation list" where
  "example_prefix_assocs =
     [\<lparr>OrderedAssociation.id = 1, root_id = Some 8, position = Some 0, prefix_id = Some 2\<rparr>,
      \<lparr>OrderedAssociation.id = 2, root_id = Some 9, position = Some 1, prefix_id = Some 2\<rparr>,
      \<lparr>OrderedAssociation.id = 3, root_id = Some 9, position = Some 0, prefix_id = Some 1\<rparr>,
      \<lparr>OrderedAssociation.id = 4, root_id = Some 10, position = Some 0, prefix_id = Some 1\<rparr>,
      \<lparr>OrderedAssociation.id = 5, root_id = Some 11, position = Some 0, prefix_id = Some 2\<rparr>]"

definition example_mod_assocs :: "RootModAssociation list" where
  "example_mod_assocs =
     [\<lparr>OrderedAssociation.id = 1, root_id = Some 10, position = Some 0, modification_id = Some 1\<rparr>,
      \<lparr>OrderedAssociation.id = 2, root_id = Some 11, position = Some 0, modification_id = Some 1\<rparr>]"

definition example_DB :: DB where
  "example_DB = empty_DB\<lparr>
     person_table := [third_person],
     number_table := [singular],
     mode_table := [present],
     gender_table := [masculine],
     vclass_table := [bhvadi, divadi],
     voice_table := [parasmaipada],
     modification_table := [causative, desiderative],
     tag_table := [noun_tag, participle_tag],
     prefix_table := [sam, upa, nan],
     root_table := [gam, upa_gam, sam_upa_gam, sam_gamaya, upa_gamaya],
     stem_table := [nara, gata],
     participlestem_table := [gata_row],
     form_table := [gacchati_form],
     nominal_table := [gatas],
     verb_table := [gacchati],
     paradigm_table := [gam_bhvadi, upa_gam_divadi, gam_divadi],
     root_prefix_association_table := example_prefix_assocs,
     root_mod_association_table := example_mod_assocs\<rparr>"

text \<open>The same database after \<open>gam\<close> is given \<open>sam-upa-gam\<close> as its basis.\<close>

definition cyclic_DB :: DB where
  "cyclic_DB = example_DB\<lparr>root_table :=
     [gam\<lparr>basis_id := Some 9\<rparr>, upa_gam, sam_upa_gam, sam_gamaya, upa_gamaya]\<rparr>"

text \<open>
  A session over the example database that has loaded nothing; the session after the root
  of the participle \<open>gatas\<close> has been read in it; that session after 8 has then been
  assigned to \<open>root_id\<close> of the stem \<open>gata\<close>; and the first session after \<open>upa-gam\<close> has
  been assigned to the root of \<open>gatas\<close>.
\<close>

definition fresh_Session :: Session where
  "fresh_Session = new_Session example_DB"

definition read_Session :: Session where
  "read_Session = snd (Participle_root fresh_Session gatas)"

definition stale_Session :: Session where
  "stale_Session = ParticipleStem_set_root_id 2 (Some 8) read_Session"

definition written_Session :: Session where
  "written_Session = snd (Participle_root_set fresh_Session gatas upa_gam)"

text \<open>
  Calls on the prefix list of \<open>sam-upa-gam\<close> (id 9), two of which fail, and one call on the
  list of \<open>upa-gam\<close> (id 8).
\<close>

definition example_prefix_ops :: "RootPrefixAssociation assoc_op list" where
  "example_prefix_ops =
     [Append 9 (RootPrefixAssociation_init 6 upa),
      InsertAt 9 (RootPrefixAssociation_init 7 sam) 1,
      Remove 9 0,
      InsertAt 9 (RootPrefixAssociation_init 8 sam) 9,
      Remove 9 5,
      Append 8 (RootPrefixAssociation_init 9 sam)]"

text \<open>Calls on the two lists of \<open>sam-gamaya\<close> (id 10).\<close>

definition sam_gamaya_prefix_ops :: "RootPrefixAssociation assoc_op list" where
  "sam_gamaya_prefix_ops =
     [Append 10 (RootPrefixAssociation_init 6 upa), Remove 10 0]"

definition sam_gamaya_mod_ops :: "RootModAssociation assoc_op list" where
  "sam_gamaya_mod_ops = [InsertAt 10 (RootModAssociation_init 3 desiderative) 0]"

section \<open>Properties of the schema\<close>

lemmas Tag_defs = VERB_def NOUN_def PRONOUN_def ADJECTIVE_def PARTICIPLE_def
  INDECLINABLE_def VERBAL_INDECLINABLE_def GERUND_def INFINITIVE_def
  PERFECT_INDECLINABLE_def NOUN_PREFIX_def VERB_PREFIX_def

lemmas example_defs = example_DB_def cyclic_DB_def empty_DB_def sam_def upa_def nan_def
  causative_def desiderative_def masculine_def bhvadi_def divadi_def parasmaipada_def
  third_person_def singular_def present_def
  noun_tag_def participle_tag_def gam_def upa_gam_def sam_upa_gam_def sam_gamaya_def
  upa_gamaya_def nara_def gata_def gata_row_def gatas_def gacchati_def gacchati_form_def
  gam_bhvadi_def upa_gam_divadi_def gam_divadi_def example_prefix_assocs_def
  example_mod_assocs_def

lemmas assoc_op_defs = example_prefix_ops_def sam_gamaya_prefix_ops_def sam_gamaya_mod_ops_def
  RootPrefixAssociation_init_def RootModAssociation_init_def apply_ops_def append_assoc_def
  insert_at_def remove_assoc_def ordered_assocs_def Let_def

lemmas session_defs = fresh_Session_def new_Session_def

lemma Stem_getattr_root_bound:
  "Stem_root_bound \<sigma> (SimpleBase.id s) = Some v \<Longrightarrow> Stem_getattr_root \<sigma> s = (Inr v, \<sigma>)"
  by (simp add: Stem_getattr_root_def)

lemma find_map_pk:
  assumes "\<And>x. pk (f x) = pk x"
  shows "find (\<lambda>r. pk r = i) (map f tbl) = map_option f (find (\<lambda>r. pk r = i) tbl)"
  using assms by (induction tbl) auto

subsection \<open>The proxies of a root\<close>

text \<open>
  Claim C10. For every root, \<open>vclasses\<close> is the sequence of the \<open>vclass\<close> values of its
  \<open>paradigms\<close> list, element for element and in the same order, and \<open>voices\<close> is the
  sequence of their \<open>voice\<close> values; both have the length of the \<open>paradigms\<close> list.
\<close>

theorem Root_proxies_follow_paradigms:
  "length (Root_vclasses db r) = length (Root_paradigms db r)
   \<and> length (Root_voices db r) = length (Root_paradigms db r)
   \<and> (\<forall>i < length (Root_paradigms db r).
        Root_vclasses db r ! i = Paradigm_vclass db (Root_paradigms db r ! i)
        \<and> Root_voices db r ! i = Paradigm_voice db (Root_paradigms db r ! i))"
  by (simp add: Root_vclasses_def Root_voices_def)

lemma Root_paradigms_gam: "Root_paradigms example_DB gam = [gam_bhvadi, gam_divadi]"
  by (simp add: Root_paradigms_def example_defs)

text \<open>
  Witness for C10: \<open>gam\<close> has two paradigms; the second has class \<open>divadi\<close> and no voice.
\<close>

theorem Root_proxies_follow_paradigms_witness:
  "(1::nat) < length (Root_paradigms example_DB gam)
   \<and> length (Root_vclasses example_DB gam) = 2
   \<and> length (Root_voices example_DB gam) = 2
   \<and> Root_vclasses example_DB gam ! 1 = Some divadi
   \<and> Root_voices example_DB gam ! 1 = None"
proof -
  have len: "length (Root_paradigms example_DB gam) = 2"
    by (simp add: Root_paradigms_gam)
  have snd: "Root_paradigms example_DB gam ! 1 = gam_divadi"
    by (simp add: Root_paradigms_gam)
  have "Paradigm_vclass example_DB gam_divadi = Some divadi"
    by (simp add: Paradigm_vclass_def many_to_one_def example_defs)
  moreover have "Paradigm_voice example_DB gam_divadi = None"
    by (simp add: Paradigm_voice_def many_to_one_def example_defs)
  ultimately show ?thesis
    using len snd Root_proxies_follow_paradigms [where db = example_DB and r = gam] by simp
qed

subsection \<open>The root of a participle\<close>

lemma Nominal_stem_result:
  assumes "Nominal_stem \<sigma> n = (Inr v, \<sigma>')"
  shows "Nominal_stem_loaded \<sigma>' (Nominal.id n) = Some v"
    and "Stem_root_bound \<sigma>' = Stem_root_bound \<sigma>"
    and "tables \<sigma>' = tables \<sigma>"
  using assms
  by (auto simp: Nominal_stem_def split: option.splits sum.splits)

lemma Nominal_stem_loaded_again:
  "Nominal_stem_loaded \<sigma> (Nominal.id n) = Some v \<Longrightarrow> Nominal_stem \<sigma> n = (Inr v, \<sigma>)"
  by (simp add: Nominal_stem_def)

lemma Nominal_stem_tables: "tables (snd (Nominal_stem \<sigma> n)) = tables \<sigma>"
  by (simp add: Nominal_stem_def split: option.splits sum.splits)

lemma Stem_getattr_root_tables: "tables (snd (Stem_getattr_root \<sigma> s)) = tables \<sigma>"
  by (simp add: Stem_getattr_root_def split: option.splits sum.splits)

lemma Participle_root_tables: "tables (snd (Participle_root \<sigma> n)) = tables \<sigma>"
proof (cases "Nominal_stem \<sigma> n")
  case (Pair res \<sigma>')
  then have t: "tables \<sigma>' = tables \<sigma>"
    using Nominal_stem_tables [of \<sigma> n] by simp
  show ?thesis
  proof (cases res)
    case (Inl e)
    then show ?thesis using Pair t by (simp add: Participle_root_def)
  next
    case (Inr v)
    then show ?thesis
      using Pair t Stem_getattr_root_tables [of \<sigma>']
      by (cases v) (simp_all add: Participle_root_def)
  qed
qed

lemma Nominal_stem_fresh:
  "Nominal_stem fresh_Session gatas =
     (Inr (Some gata),
      fresh_Session\<lparr>Nominal_stem_loaded := (Map.empty)(5 \<mapsto> Some gata)\<rparr>)"
  by (simp add: Nominal_stem_def many_to_one_polymorphic_def many_to_one_def Stem_class_def
      session_defs example_defs Tag_defs)

lemma read_Session_eq:
  "read_Session =
     fresh_Session\<lparr>Nominal_stem_loaded := (Map.empty)(5 \<mapsto> Some gata),
                   Stem_root_bound := (Map.empty)(2 \<mapsto> Some gam)\<rparr>"
  unfolding read_Session_def Participle_root_def Nominal_stem_fresh
  by (simp add: Stem_getattr_root_def many_to_one_polymorphic_def many_to_one_def Stem_class_def
      Root_class_def getattr_error_def Stem_inherited_def session_defs example_defs Tag_defs)

lemma written_Session_eq:
  "written_Session =
     \<lparr>tables = example_DB\<lparr>participlestem_table :=
                  [gata_row\<lparr>ParticipleStem.root_id := Some 8\<rparr>]\<rparr>,
      Nominal_stem_loaded = (Map.empty)(5 \<mapsto> Some gata),
      Stem_root_bound = (Map.empty)(2 \<mapsto> Some upa_gam)\<rparr>"
  unfolding written_Session_def Participle_root_set_def Nominal_stem_fresh
  by (simp add: Stem_setattr_root_def Stem_class_def session_defs example_defs Tag_defs)

lemma stale_Session_eq:
  "stale_Session =
     \<lparr>tables = example_DB\<lparr>participlestem_table :=
                  [gata_row\<lparr>ParticipleStem.root_id := Some 8\<rparr>]\<rparr>,
      Nominal_stem_loaded = (Map.empty)(5 \<mapsto> Some gata),
      Stem_root_bound = (Map.empty)(2 \<mapsto> Some gam)\<rparr>"
  unfolding stale_Session_def read_Session_eq
  by (simp add: ParticipleStem_set_root_id_def session_defs example_defs)

text \<open>
  Claim C5 says that the \<open>root\<close> of a participle is a read-only projection that equals at
  all times the root that its stem references, and so never goes stale. The proxy takes
  assignments: assigning \<open>upa-gam\<close> to the root of the participle \<open>gatas\<close>, whose stem
  \<open>gata\<close> had the root \<open>gam\<close>, succeeds and rewrites the stem's \<open>root_id\<close>. And it is as
  stale as the stem's own attribute: once the root of \<open>gatas\<close> has been read, it stays
  \<open>gam\<close> in that session after \<open>root_id\<close> of \<open>gata\<close> has become 8, the id of \<open>upa-gam\<close>.
\<close>

theorem Participle_root_is_writable:
  "fst (Participle_root fresh_Session gatas) = Inr (Some gam)
   \<and> fst (Participle_root_set fresh_Session gatas upa_gam) = Inr ()
   \<and> participlestem_table (tables written_Session)
       = [gata_row\<lparr>ParticipleStem.root_id := Some 8\<rparr>]
   \<and> fst (Participle_root written_Session gatas) = Inr (Some upa_gam)
   \<and> participlestem_table (tables stale_Session)
       = [gata_row\<lparr>ParticipleStem.root_id := Some 8\<rparr>]
   \<and> many_to_one SimpleBase.id (root_table (tables stale_Session)) (Some 8) = Some upa_gam
   \<and> fst (Participle_root stale_Session gatas) = Inr (Some gam)"
proof -
  have a: "fst (Participle_root fresh_Session gatas) = Inr (Some gam)"
    unfolding Participle_root_def Nominal_stem_fresh
    by (simp add: Stem_getattr_root_def many_to_one_polymorphic_def many_to_one_def
        Stem_class_def Root_class_def getattr_error_def Stem_inherited_def session_defs
        example_defs Tag_defs)
  have b: "fst (Participle_root_set fresh_Session gatas upa_gam) = Inr ()"
    unfolding Participle_root_set_def Nominal_stem_fresh by simp
  have c: "fst (Participle_root written_Session gatas) = Inr (Some upa_gam)"
    unfolding written_Session_eq
    by (simp add: Participle_root_def Nominal_stem_def Stem_getattr_root_def gatas_def gata_def)
  have d: "fst (Participle_root stale_Session gatas) = Inr (Some gam)"
    unfolding stale_Session_eq
    by (simp add: Participle_root_def Nominal_stem_def Stem_getattr_root_def gatas_def gata_def)
  have e: "many_to_one SimpleBase.id (root_table (tables stale_Session)) (Some 8) = Some upa_gam"
    unfolding stale_Session_eq by (simp add: many_to_one_def example_defs)
  show ?thesis
    using a b c d e by (simp add: written_Session_eq stale_Session_eq)
qed

text \<open>
  Claim C5, amended. The \<open>root\<close> of a participle that has a stem is a view of the stem's
  own attribute \<open>root\<close>: every access reads that attribute off the stem, and nothing is
  stored on the participle or in its row. So it yields what the stem has loaded or been
  assigned, if anything, also when the stem's \<open>root_id\<close> has changed since; and otherwise,
  for a participle stem, the root that the stem's \<open>root_id\<close> references at that moment. It
  is not read-only: an assignment to it is an assignment to the root of the stem, which
  later reads yield and which, on a participle stem, the stem's \<open>root_id\<close> follows.
\<close>

theorem Participle_root_through_stem:
  assumes "Nominal_stem \<sigma> n = (Inr (Some s), \<sigma>')"
  shows "Participle_root \<sigma> n = Stem_getattr_root \<sigma>' s
    \<and> tables (snd (Participle_root \<sigma> n)) = tables \<sigma>
    \<and> (Stem_root_bound \<sigma>' (SimpleBase.id s) = Some v \<longrightarrow>
          Participle_root \<sigma> n = (Inr v, \<sigma>'))
    \<and> (Stem_root_bound \<sigma>' (SimpleBase.id s) = None
        \<and> Stem_class s = Some ParticipleStem
        \<and> find (\<lambda>x. ParticipleStem.id x = SimpleBase.id s) (participlestem_table (tables \<sigma>'))
            = Some row
        \<and> many_to_one SimpleBase.id (root_table (tables \<sigma>')) (ParticipleStem.root_id row)
            = Some r
        \<and> Root_class r = Some c
        \<longrightarrow> fst (Participle_root \<sigma> n) = Inr (Some r))
    \<and> fst (Participle_root_set \<sigma> n r') = Inr ()
    \<and> nominal_table (tables (snd (Participle_root_set \<sigma> n r'))) = nominal_table (tables \<sigma>)
    \<and> (Stem_class s = Some ParticipleStem
        \<and> find (\<lambda>x. ParticipleStem.id x = SimpleBase.id s) (participlestem_table (tables \<sigma>))
            = Some row'
        \<longrightarrow> find (\<lambda>x. ParticipleStem.id x = SimpleBase.id s)
              (participlestem_table (tables (snd (Participle_root_set \<sigma> n r'))))
            = Some (row'\<lparr>ParticipleStem.root_id := Some (SimpleBase.id r')\<rparr>))
    \<and> fst (Participle_root (snd (Participle_root_set \<sigma> n r')) n) = Inr (Some r')"
proof -
  have view: "Participle_root \<sigma> n = Stem_getattr_root \<sigma>' s"
    using assms by (simp add: Participle_root_def)
  have bound: "Participle_root \<sigma> n = (Inr v, \<sigma>')"
    if "Stem_root_bound \<sigma>' (SimpleBase.id s) = Some v"
    unfolding view using that by (rule Stem_getattr_root_bound)
  have fresh: "fst (Participle_root \<sigma> n) = Inr (Some r)"
    if "Stem_root_bound \<sigma>' (SimpleBase.id s) = None" "Stem_class s = Some ParticipleStem"
      "find (\<lambda>x. ParticipleStem.id x = SimpleBase.id s) (participlestem_table (tables \<sigma>'))
         = Some row"
      "many_to_one SimpleBase.id (root_table (tables \<sigma>')) (ParticipleStem.root_id row) = Some r"
      "Root_class r = Some c"
    unfolding view using that
    by (simp add: Stem_getattr_root_def getattr_error_def many_to_one_polymorphic_def)
  let ?w = "Stem_setattr_root \<sigma>' s r'"
  have set: "Participle_root_set \<sigma> n r' = (Inr (), ?w)"
    using assms by (simp add: Participle_root_set_def)
  have loaded: "Nominal_stem_loaded ?w (Nominal.id n) = Some (Some s)"
    using Nominal_stem_result(1) [OF assms] by (simp add: Stem_setattr_root_def)
  have "Participle_root ?w n = Stem_getattr_root ?w s"
    using Nominal_stem_loaded_again [OF loaded] by (simp add: Participle_root_def)
  also have "\<dots> = (Inr (Some r'), ?w)"
    by (rule Stem_getattr_root_bound) (simp add: Stem_setattr_root_def)
  finally have reread: "fst (Participle_root ?w n) = Inr (Some r')" by simp
  have rows: "nominal_table (tables ?w) = nominal_table (tables \<sigma>)"
    using Nominal_stem_result(3) [OF assms] by (simp add: Stem_setattr_root_def)
  have key: "find (\<lambda>x. ParticipleStem.id x = SimpleBase.id s) (participlestem_table (tables ?w))
      = Some (row'\<lparr>ParticipleStem.root_id := Some (SimpleBase.id r')\<rparr>)"
    if cls: "Stem_class s = Some ParticipleStem"
      and found: "find (\<lambda>x. ParticipleStem.id x = SimpleBase.id s)
                    (participlestem_table (tables \<sigma>)) = Some row'"
  proof -
    let ?upd = "\<lambda>x. if ParticipleStem.id x = SimpleBase.id s
                      then x\<lparr>ParticipleStem.root_id := Some (SimpleBase.id r')\<rparr> else x"
    have t: "tables \<sigma>' = tables \<sigma>"
      by (rule Nominal_stem_result(3) [OF assms])
    have id: "ParticipleStem.id row' = SimpleBase.id s"
      using found by (auto simp: find_Some_iff)
    have "participlestem_table (tables ?w) = map ?upd (participlestem_table (tables \<sigma>))"
      using cls t by (simp add: Stem_setattr_root_def)
    then have "find (\<lambda>x. ParticipleStem.id x = SimpleBase.id s) (participlestem_table (tables ?w))
        = map_option ?upd (Some row')"
      using find_map_pk [of ParticipleStem.id ?upd "SimpleBase.id s"
          "participlestem_table (tables \<sigma>)"] found
      by simp
    then show ?thesis using id by simp
  qed
  show ?thesis
    using view bound fresh set reread rows key Participle_root_tables [of \<sigma> n] by simp
qed

text \<open>
  Witness for C5: in a session that has loaded nothing, the participle \<open>gatas\<close> takes its
  stem \<open>gata\<close> and yields the root \<open>gam\<close> that the row of \<open>gata\<close> references, and after
  the assignment of \<open>upa-gam\<close> it yields \<open>upa-gam\<close>; in the session in which \<open>gata\<close> has
  loaded \<open>gam\<close> and its \<open>root_id\<close> has then become 8, it yields \<open>gam\<close>.
\<close>

theorem Participle_root_through_stem_witness:
  "Nominal_stem fresh_Session gatas
     = (Inr (Some gata), fresh_Session\<lparr>Nominal_stem_loaded := (Map.empty)(5 \<mapsto> Some gata)\<rparr>)
   \<and> Stem_class gata = Some ParticipleStem
   \<and> find (\<lambda>x. ParticipleStem.id x = SimpleBase.id gata) (participlestem_table example_DB)
       = Some gata_row
   \<and> many_to_one SimpleBase.id (root_table example_DB) (ParticipleStem.root_id gata_row)
       = Some gam
   \<and> Root_class gam = Some Root
   \<and> fst (Participle_root fresh_Session gatas) = Inr (Some gam)
   \<and> fst (Participle_root_set fresh_Session gatas upa_gam) = Inr ()
   \<and> fst (Participle_root (snd (Participle_root_set fresh_Session gatas upa_gam)) gatas)
       = Inr (Some upa_gam)
   \<and> find (\<lambda>x. ParticipleStem.id x = SimpleBase.id gata)
         (participlestem_table (tables (snd (Participle_root_set fresh_Session gatas upa_gam))))
       = Some (gata_row\<lparr>ParticipleStem.root_id := Some (SimpleBase.id upa_gam)\<rparr>)
   \<and> Nominal_stem stale_Session gatas = (Inr (Some gata), stale_Session)
   \<and> Stem_root_bound stale_Session (SimpleBase.id gata) = Some (Some gam)
   \<and> Participle_root stale_Session gatas = (Inr (Some gam), stale_Session)"
proof -
  let ?s1 = "fresh_Session\<lparr>Nominal_stem_loaded := (Map.empty)(5 \<mapsto> Some gata)\<rparr>"
  have cls: "Stem_class gata = Some ParticipleStem"
    by (simp add: Stem_class_def gata_def Tag_defs)
  have unbound: "Stem_root_bound ?s1 (SimpleBase.id gata) = None"
    by (simp add: session_defs)
  have row: "find (\<lambda>x. ParticipleStem.id x = SimpleBase.id gata) (participlestem_table example_DB)
       = Some gata_row"
    by (simp add: example_defs)
  have tbl: "tables ?s1 = example_DB"
    by (simp add: session_defs)
  have root: "many_to_one SimpleBase.id (root_table example_DB) (ParticipleStem.root_id gata_row)
       = Some gam"
    by (simp add: many_to_one_def example_defs)
  have rcls: "Root_class gam = Some Root"
    by (simp add: Root_class_def gam_def)
  have row0: "find (\<lambda>x. ParticipleStem.id x = SimpleBase.id gata)
       (participlestem_table (tables fresh_Session)) = Some gata_row"
    by (simp add: session_defs example_defs)
  note fresh = Participle_root_through_stem [OF Nominal_stem_fresh, where r' = upa_gam
      and row = gata_row and r = gam and c = Root and row' = gata_row]
  from fresh unbound cls row root rcls
  have f1: "fst (Participle_root fresh_Session gatas) = Inr (Some gam)"
    unfolding tbl by blast
  from fresh cls row0
  have f5: "find (\<lambda>x. ParticipleStem.id x = SimpleBase.id gata)
         (participlestem_table (tables (snd (Participle_root_set fresh_Session gatas upa_gam))))
       = Some (gata_row\<lparr>ParticipleStem.root_id := Some (SimpleBase.id upa_gam)\<rparr>)"
    by blast
  from fresh
  have f2: "fst (Participle_root_set fresh_Session gatas upa_gam) = Inr ()"
    and f3: "fst (Participle_root (snd (Participle_root_set fresh_Session gatas upa_gam)) gatas)
       = Inr (Some upa_gam)"
    by blast+
  have st: "Nominal_stem stale_Session gatas = (Inr (Some gata), stale_Session)"
    unfolding stale_Session_eq by (simp add: Nominal_stem_def gatas_def)
  have sb: "Stem_root_bound stale_Session (SimpleBase.id gata) = Some (Some gam)"
    unfolding stale_Session_eq by (simp add: gata_def)
  from Participle_root_through_stem [OF st, where v = "Some gam"] sb
  have f4: "Participle_root stale_Session gatas = (Inr (Some gam), stale_Session)"
    by blast
  show ?thesis
    using Nominal_stem_fresh cls row root rcls f1 f2 f3 f5 st sb f4 by blast
qed

subsection \<open>The gender of a stem\<close>

lemma Stem_gender_eq_pos: "Stem_gender db s = Stem_pos db s"
  by (simp add: Stem_gender_def Stem_pos_def)

text \<open>
  Claim C6 says that the \<open>gender\<close> of a stem, when set, resolves to an entry of the Gender
  enumeration. The relationship is declared with target \<^verbatim>\<open>Tag\<close>: for the stem \<open>nara\<close>,
  whose \<open>gender_id\<close> is the id of \<open>masculine\<close>, it yields the part-of-speech tag \<open>noun\<close>,
  the same entry as \<open>pos\<close>.
\<close>

theorem Stem_gender_resolves_to_Tag:
  "Stem.gender_id nara = Some 1
   \<and> many_to_one SimpleBase.id (gender_table example_DB) (Stem.gender_id nara) = Some masculine
   \<and> Stem_gender example_DB nara = Some noun_tag
   \<and> Stem_gender example_DB nara = Stem_pos example_DB nara"
  by (simp add: Stem_gender_def Stem_pos_def many_to_one_def example_defs Tag_defs)

subsection \<open>The references of a verb\<close>









subsection \<open>The variant of an entity\<close>

text \<open>
  Claim C7 says that no mutation after creation changes the variant of an entity. The
  discriminator is an ordinary column: assigning 1 to the \<open>discriminator\<close> of the plain
  root \<open>gam\<close> makes it a \<^verbatim>\<open>PrefixedRoot\<close>.
\<close>

theorem variant_changes_with_discriminator:
  "Root_class gam = Some Root \<and> Root_class (gam\<lparr>discriminator := Some 1\<rparr>) = Some PrefixedRoot"
  by (simp add: Root_class_def gam_def)

text \<open>
  Claim C7, amended. For every entity of the four base kinds the variant is determined by
  the discriminator column alone (\<open>discriminator\<close> of a root, \<open>pos_id\<close> of a prefix, a stem
  or a form): any update that leaves that column as it is keeps the variant.
\<close>

theorem variant_follows_discriminator:
  "(discriminator r' = discriminator r \<longrightarrow> Root_class r' = Root_class r)
   \<and> (Prefix.pos_id p' = Prefix.pos_id p \<longrightarrow> Prefix_class p' = Prefix_class p)
   \<and> (Stem.pos_id s' = Stem.pos_id s \<longrightarrow> Stem_class s' = Stem_class s)
   \<and> (Form.pos_id f' = Form.pos_id f \<longrightarrow> Form_class f' = Form_class f)"
  by (simp add: Root_class_def Prefix_class_def Stem_class_def Form_class_def)

text \<open>
  Witness for C7: renaming and re-basing \<open>gam\<close>, renaming \<open>sam\<close>, making \<open>gata\<close> dependent
  and renaming the form \<open>gacchati\<close> leave each of them what it was.
\<close>

theorem variant_follows_discriminator_witness:
  "discriminator (gam\<lparr>name := Some ''gacch'', basis_id := Some 8\<rparr>) = discriminator gam
   \<and> Root_class (gam\<lparr>name := Some ''gacch'', basis_id := Some 8\<rparr>) = Some Root
   \<and> Prefix.pos_id (sam\<lparr>name := Some ''sam2''\<rparr>) = Prefix.pos_id sam
   \<and> Prefix_class (sam\<lparr>name := Some ''sam2''\<rparr>) = Some VerbPrefix
   \<and> Stem.pos_id (gata\<lparr>dependent := True\<rparr>) = Stem.pos_id gata
   \<and> Stem_class (gata\<lparr>dependent := True\<rparr>) = Some ParticipleStem
   \<and> Form.pos_id (gacchati_form\<lparr>name := None\<rparr>) = Form.pos_id gacchati_form
   \<and> Form_class (gacchati_form\<lparr>name := None\<rparr>) = Some Verb"
proof -
  have "Root_class gam = Some Root"
    by (simp add: Root_class_def gam_def)
  moreover have "Prefix_class sam = Some VerbPrefix"
    by (simp add: Prefix_class_def sam_def Tag_defs)
  moreover have "Stem_class gata = Some ParticipleStem"
    by (simp add: Stem_class_def gata_def Tag_defs)
  moreover have "Form_class gacchati_form = Some Verb"
    by (simp add: Form_class_def gacchati_form_def Tag_defs)
  ultimately show ?thesis
    using variant_follows_discriminator
      [where r' = "gam\<lparr>name := Some ''gacch'', basis_id := Some 8\<rparr>" and r = gam
        and p' = "sam\<lparr>name := Some ''sam2''\<rparr>" and p = sam
        and s' = "gata\<lparr>dependent := True\<rparr>" and s = gata
        and f' = "gacchati_form\<lparr>name := None\<rparr>" and f = gacchati_form]
    by simp
qed

subsection \<open>Access to the attributes of another variant\<close>

lemma Stem_attributes_root:
  "getattr_error (Stem_attributes c) ''root'' = (if c = ParticipleStem then None else Some AttributeError)"
  by (cases c) (simp_all add: getattr_error_def Stem_inherited_def)

lemma Root_attributes_prefix_assocs:
  "getattr_error (Root_attributes c) ''prefix_assocs''
     = (if c = PrefixedRoot \<or> c = PrefixedModifiedRoot then None else Some AttributeError)"
  by (cases c) (simp_all add: getattr_error_def Root_inherited_def)

lemma Root_attributes_mod_assocs:
  "getattr_error (Root_attributes c) ''mod_assocs''
     = (if c = ModifiedRoot \<or> c = PrefixedModifiedRoot then None else Some AttributeError)"
  by (cases c) (simp_all add: getattr_error_def Root_inherited_def)

text \<open>
  Claim C8 says that access to a field of another variant fails with \<open>WrongVariant\<close>, and
  never returns a value or crashes. In the schema the access is the attribute lookup of
  Python: reading \<open>prefix_assocs\<close> off the plain root \<open>gam\<close>, or \<open>root\<close> off the noun stem
  \<open>nara\<close>, raises \<^verbatim>\<open>AttributeError\<close>; assigning \<open>root\<close> on \<open>nara\<close> is accepted, and
  reading it then returns the assigned root, also through the proxy of a participle whose
  stem it is. \<^verbatim>\<open>VerbPrefix\<close> has no attribute that \<^verbatim>\<open>NounPrefix\<close> has not.
\<close>

theorem wrong_variant_read_raises_write_succeeds:
  "Root_class gam = Some Root
   \<and> Root_getattr_prefix_assocs example_DB gam = Inl AttributeError
   \<and> Stem_class nara = Some NounStem
   \<and> fst (Stem_getattr_root fresh_Session nara) = Inl AttributeError
   \<and> fst (Participle_root fresh_Session nara_participle) = Inl AttributeError
   \<and> tables (Stem_setattr_root fresh_Session nara gam) = tables fresh_Session
   \<and> fst (Stem_getattr_root (Stem_setattr_root fresh_Session nara gam) nara) = Inr (Some gam)
   \<and> fst (Participle_root_set fresh_Session nara_participle gam) = Inr ()
   \<and> fst (Participle_root (snd (Participle_root_set fresh_Session nara_participle gam)) nara_participle)
       = Inr (Some gam)
   \<and> Prefix_class nan = Some NounPrefix
   \<and> Prefix_attributes VerbPrefix = Prefix_attributes NounPrefix"
proof -
  have stem: "Nominal_stem fresh_Session nara_participle
      = (Inr (Some nara), fresh_Session\<lparr>Nominal_stem_loaded := (Map.empty)(8 \<mapsto> Some nara)\<rparr>)"
    by (simp add: Nominal_stem_def many_to_one_polymorphic_def many_to_one_def Stem_class_def
        session_defs nara_participle_def example_defs Tag_defs)
  have a: "Root_class gam = Some Root"
    by (simp add: Root_class_def gam_def)
  have b: "Root_getattr_prefix_assocs example_DB gam = Inl AttributeError"
    by (simp add: Root_getattr_prefix_assocs_def a getattr_error_def Root_inherited_def)
  have c: "Stem_class nara = Some NounStem"
    by (simp add: Stem_class_def nara_def Tag_defs)
  have d: "fst (Stem_getattr_root fresh_Session nara) = Inl AttributeError"
    by (simp add: Stem_getattr_root_def c getattr_error_def Stem_inherited_def session_defs)
  have e: "fst (Participle_root fresh_Session nara_participle) = Inl AttributeError"
    unfolding Participle_root_def stem
    by (simp add: Stem_getattr_root_def c getattr_error_def Stem_inherited_def session_defs)
  have f: "tables (Stem_setattr_root fresh_Session nara gam) = tables fresh_Session"
    by (simp add: Stem_setattr_root_def c)
  have g: "fst (Stem_getattr_root (Stem_setattr_root fresh_Session nara gam) nara)
      = Inr (Some gam)"
    by (simp add: Stem_getattr_root_def Stem_setattr_root_def)
  have h: "fst (Participle_root_set fresh_Session nara_participle gam) = Inr ()"
    unfolding Participle_root_set_def stem by simp
  have i: "fst (Participle_root (snd (Participle_root_set fresh_Session nara_participle gam)) nara_participle)
      = Inr (Some gam)"
    unfolding Participle_root_set_def stem
    by (simp add: Participle_root_def Nominal_stem_def Stem_getattr_root_def
        Stem_setattr_root_def nara_participle_def)
  have j: "Prefix_class nan = Some NounPrefix"
    by (simp add: Prefix_class_def nan_def Tag_defs)
  show ?thesis
    using a b c d e f g h i j by simp
qed

text \<open>
  Claim C8, amended. There is no \<open>WrongVariant\<close>: access by variant is the attribute
  lookup of Python on the class of the object. On an object as the mapper loads it,
  reading \<open>prefix_assocs\<close> gives the list on a prefixed root and on a prefixed and modified
  root and raises \<^verbatim>\<open>AttributeError\<close> on a root of another class, and likewise
  \<open>mod_assocs\<close> on a modified root and on a prefixed and modified root; reading \<open>root\<close>
  off a stem that is no participle stem raises \<^verbatim>\<open>AttributeError\<close> as long as nothing
  has been assigned to it. An assignment of \<open>root\<close> on such a stem is accepted, changes no
  table, and is what later reads return. The classes of prefixes all have the same
  attributes.
\<close>

theorem wrong_variant_attribute_access:
  "(Root_class r = Some c \<longrightarrow>
      Root_getattr_prefix_assocs db r
        = (if c = PrefixedRoot \<or> c = PrefixedModifiedRoot
           then Inr (PrefixedRoot_prefix_assocs db r) else Inl AttributeError)
      \<and> Root_getattr_mod_assocs db r
        = (if c = ModifiedRoot \<or> c = PrefixedModifiedRoot
           then Inr (ModifiedRoot_mod_assocs db r) else Inl AttributeError))
   \<and> (Stem_class s = Some sc \<and> sc \<noteq> ParticipleStem \<longrightarrow>
        (Stem_root_bound \<sigma> (SimpleBase.id s) = None \<longrightarrow>
           Stem_getattr_root \<sigma> s = (Inl AttributeError, \<sigma>))
        \<and> tables (Stem_setattr_root \<sigma> s r') = tables \<sigma>
        \<and> Stem_getattr_root (Stem_setattr_root \<sigma> s r') s
            = (Inr (Some r'), Stem_setattr_root \<sigma> s r'))
   \<and> Prefix_attributes pc = Prefix_attributes pc'"
proof -
  have roots: "Root_getattr_prefix_assocs db r
        = (if c = PrefixedRoot \<or> c = PrefixedModifiedRoot
           then Inr (PrefixedRoot_prefix_assocs db r) else Inl AttributeError)"
    "Root_getattr_mod_assocs db r
        = (if c = ModifiedRoot \<or> c = PrefixedModifiedRoot
           then Inr (ModifiedRoot_mod_assocs db r) else Inl AttributeError)"
    if "Root_class r = Some c"
    using that
    by (simp_all add: Root_getattr_prefix_assocs_def Root_getattr_mod_assocs_def
        Root_attributes_prefix_assocs Root_attributes_mod_assocs)
  have rd: "Stem_getattr_root \<sigma> s = (Inl AttributeError, \<sigma>)"
    if "Stem_class s = Some sc" "sc \<noteq> ParticipleStem" "Stem_root_bound \<sigma> (SimpleBase.id s) = None"
    using that by (simp add: Stem_getattr_root_def Stem_attributes_root)
  have wr: "tables (Stem_setattr_root \<sigma> s r') = tables \<sigma>"
    if "Stem_class s = Some sc" "sc \<noteq> ParticipleStem"
    using that by (simp add: Stem_setattr_root_def)
  have reread: "Stem_getattr_root (Stem_setattr_root \<sigma> s r') s
            = (Inr (Some r'), Stem_setattr_root \<sigma> s r')"
    by (rule Stem_getattr_root_bound) (simp add: Stem_setattr_root_def)
  show ?thesis
    using roots rd wr reread by simp
qed

text \<open>
  Witness for C8: \<open>prefix_assocs\<close> is the one association of the prefixed root \<open>upa-gam\<close>
  and an error on the plain root \<open>gam\<close>, and \<open>mod_assocs\<close> is an error on both; the noun
  stem \<open>nara\<close> has no \<open>root\<close> until \<open>gam\<close> is assigned to it, which changes no table.
\<close>

theorem wrong_variant_attribute_access_witness:
  "Root_class upa_gam = Some PrefixedRoot
   \<and> map prefix_id (projr (Root_getattr_prefix_assocs example_DB upa_gam)) = [Some 2]
   \<and> Root_getattr_mod_assocs example_DB upa_gam = Inl AttributeError
   \<and> Root_class gam = Some Root
   \<and> Root_getattr_prefix_assocs example_DB gam = Inl AttributeError
   \<and> Root_getattr_mod_assocs example_DB gam = Inl AttributeError
   \<and> Stem_class nara = Some NounStem
   \<and> Stem_root_bound fresh_Session (SimpleBase.id nara) = None
   \<and> Stem_getattr_root fresh_Session nara = (Inl AttributeError, fresh_Session)
   \<and> tables (Stem_setattr_root fresh_Session nara gam) = example_DB
   \<and> fst (Stem_getattr_root (Stem_setattr_root fresh_Session nara gam) nara) = Inr (Some gam)"
proof -
  have c1: "Root_class upa_gam = Some PrefixedRoot"
    by (simp add: Root_class_def upa_gam_def)
  have c2: "Root_class gam = Some Root"
    by (simp add: Root_class_def gam_def)
  have c3: "Stem_class nara = Some NounStem"
    by (simp add: Stem_class_def nara_def Tag_defs)
  have ne: "NounStem \<noteq> ParticipleStem"
    by simp
  have unbound: "Stem_root_bound fresh_Session (SimpleBase.id nara) = None"
    by (simp add: session_defs)
  have tbl: "tables fresh_Session = example_DB"
    by (simp add: session_defs)
  have list: "map prefix_id (PrefixedRoot_prefix_assocs example_DB upa_gam) = [Some 2]"
    by (simp add: PrefixedRoot_prefix_assocs_def ordered_assocs_def example_defs)
  note i1 = wrong_variant_attribute_access [where r = upa_gam and c = PrefixedRoot
      and db = example_DB]
  note i2 = wrong_variant_attribute_access [where r = gam and c = Root and db = example_DB
      and s = nara and sc = NounStem and \<sigma> = fresh_Session and r' = gam]
  from i1 c1 have p1: "Root_getattr_prefix_assocs example_DB upa_gam
      = Inr (PrefixedRoot_prefix_assocs example_DB upa_gam)"
    and m1: "Root_getattr_mod_assocs example_DB upa_gam = Inl AttributeError"
    by simp_all
  from i2 c2 have p2: "Root_getattr_prefix_assocs example_DB gam = Inl AttributeError"
    and m2: "Root_getattr_mod_assocs example_DB gam = Inl AttributeError"
    by simp_all
  from i2 c3 ne unbound
  have r1: "Stem_getattr_root fresh_Session nara = (Inl AttributeError, fresh_Session)"
    by blast
  from i2 c3 ne
  have w1: "tables (Stem_setattr_root fresh_Session nara gam) = tables fresh_Session"
    and r2: "Stem_getattr_root (Stem_setattr_root fresh_Session nara gam) nara
      = (Inr (Some gam), Stem_setattr_root fresh_Session nara gam)"
    by blast+
  show ?thesis
    using c1 c2 c3 unbound list p1 m1 p2 m2 r1 w1 r2 by (simp add: tbl)
qed

subsection \<open>Default paradigms\<close>

lemma Root_paradigms_mark_default:
  "Root_paradigms (mark_default i db) r
     = map (\<lambda>p. if Paradigm.id p = i then p\<lparr>default := True\<rparr> else p) (Root_paradigms db r)"
proof -
  have "filter (\<lambda>p. Paradigm.root_id p = Some k)
          (map (\<lambda>p. if Paradigm.id p = i then p\<lparr>default := True\<rparr> else p) xs)
        = map (\<lambda>p. if Paradigm.id p = i then p\<lparr>default := True\<rparr> else p)
            (filter (\<lambda>p. Paradigm.root_id p = Some k) xs)" for k and xs :: "Paradigm list"
    by (induction xs) simp_all
  then show ?thesis
    by (simp add: Root_paradigms_def mark_default_def)
qed

lemma marked_default_count:
  "length (filter default
             (map (\<lambda>p. if Paradigm.id p = i then p\<lparr>default := True\<rparr> else p) xs))
     = length (filter default xs)
       + length (filter (\<lambda>p. \<not> default p \<and> Paradigm.id p = i) xs)"
  by (induction xs) simp_all

lemma mark_default_other:
  assumes "\<forall>p \<in> set xs. Paradigm.id p \<noteq> i"
  shows "map (\<lambda>p. if Paradigm.id p = i then p\<lparr>default := True\<rparr> else p) xs = xs"
  using assms by (induction xs) simp_all

text \<open>
  Claim C4 says that at most one paradigm of a root has the default flag, and that marking
  a second one is rejected or reported. The flag is an ordinary column and the schema has
  no validation: the root \<open>gam\<close> has the default paradigm \<open>gam_bhvadi\<close>, and marking its
  paradigm with id 3 as default is accepted and leaves it with two default paradigms.
\<close>

theorem second_default_accepted:
  "Paradigm.root_id gam_bhvadi = Some (SimpleBase.id gam)
   \<and> Paradigm.root_id gam_divadi = Some (SimpleBase.id gam)
   \<and> Paradigm.id gam_divadi = 3
   \<and> default_paradigms example_DB gam = [gam_bhvadi]
   \<and> default_paradigms (mark_default 3 example_DB) gam
       = [gam_bhvadi, gam_divadi\<lparr>default := True\<rparr>]"
  by (simp add: default_paradigms_def Root_paradigms_def mark_default_def example_defs)

text \<open>
  Claim C4, amended. The default paradigms of a root are the paradigms that point at it
  and have the flag, and the schema puts no bound on their number. Marking a paradigm as
  default is never rejected: it adds to the default paradigms of a root those of its
  paradigms with that id that were not default, so a root that has a default paradigm has
  two or more once another of its paradigms is marked; the default paradigms of a root
  none of whose paradigms has that id stay as they were.
\<close>

theorem default_flag_unconstrained:
  "set (default_paradigms db r)
     = {p \<in> set (paradigm_table db). Paradigm.root_id p = Some (SimpleBase.id r) \<and> default p}
   \<and> length (default_paradigms (mark_default i db) r)
       = length (default_paradigms db r)
         + length (filter (\<lambda>p. \<not> default p \<and> Paradigm.id p = i) (Root_paradigms db r))
   \<and> (q \<in> set (Root_paradigms db r) \<and> \<not> default q \<and> default_paradigms db r \<noteq> []
        \<longrightarrow> 2 \<le> length (default_paradigms (mark_default (Paradigm.id q) db) r))
   \<and> ((\<forall>p \<in> set (Root_paradigms db r'). Paradigm.id p \<noteq> i)
        \<longrightarrow> default_paradigms (mark_default i db) r' = default_paradigms db r')"
proof -
  have members: "set (default_paradigms db r)
     = {p \<in> set (paradigm_table db). Paradigm.root_id p = Some (SimpleBase.id r) \<and> default p}"
    by (auto simp: default_paradigms_def Root_paradigms_def)
  have count: "length (default_paradigms (mark_default j db) r)
       = length (default_paradigms db r)
         + length (filter (\<lambda>p. \<not> default p \<and> Paradigm.id p = j) (Root_paradigms db r))" for j
    unfolding default_paradigms_def Root_paradigms_mark_default by (rule marked_default_count)
  have second: "2 \<le> length (default_paradigms (mark_default (Paradigm.id q) db) r)"
    if q: "q \<in> set (Root_paradigms db r)" "\<not> default q" and d: "default_paradigms db r \<noteq> []"
  proof -
    from q have "q \<in> set (filter (\<lambda>p. \<not> default p \<and> Paradigm.id p = Paradigm.id q)
                           (Root_paradigms db r))"
      by simp
    then have "filter (\<lambda>p. \<not> default p \<and> Paradigm.id p = Paradigm.id q) (Root_paradigms db r) \<noteq> []"
      by (metis empty_iff list.set(1))
    then have "1 \<le> length (filter (\<lambda>p. \<not> default p \<and> Paradigm.id p = Paradigm.id q)
                            (Root_paradigms db r))"
      by (simp add: Suc_le_eq)
    moreover from d have "1 \<le> length (default_paradigms db r)"
      by (simp add: Suc_le_eq)
    ultimately show ?thesis
      unfolding count by linarith
  qed
  have other: "default_paradigms (mark_default i db) r' = default_paradigms db r'"
    if "\<forall>p \<in> set (Root_paradigms db r'). Paradigm.id p \<noteq> i"
    unfolding default_paradigms_def Root_paradigms_mark_default
    using mark_default_other [OF that] by simp
  show ?thesis
    using members count [of i] second other by blast
qed

text \<open>
  Witness for C4: \<open>gam\<close> has the default paradigm \<open>gam_bhvadi\<close> and the paradigm
  \<open>gam_divadi\<close>, which is not default; once that is marked, \<open>gam\<close> has two default
  paradigms. No paradigm of \<open>upa-gam\<close> has the id of \<open>gam_divadi\<close>, and it has no default
  paradigm before and after.
\<close>

theorem default_flag_unconstrained_witness:
  "gam_divadi \<in> set (Root_paradigms example_DB gam)
   \<and> \<not> default gam_divadi
   \<and> default_paradigms example_DB gam = [gam_bhvadi]
   \<and> length (default_paradigms (mark_default (Paradigm.id gam_divadi) example_DB) gam) = 2
   \<and> map Paradigm.id (Root_paradigms example_DB upa_gam) = [2]
   \<and> Paradigm.id gam_divadi = 3
   \<and> default_paradigms (mark_default (Paradigm.id gam_divadi) example_DB) upa_gam = []"
proof -
  have q: "gam_divadi \<in> set (Root_paradigms example_DB gam)"
    by (simp add: Root_paradigms_gam)
  have nd: "\<not> default gam_divadi"
    by (simp add: gam_divadi_def)
  have d: "default_paradigms example_DB gam = [gam_bhvadi]"
    by (simp add: default_paradigms_def Root_paradigms_gam gam_bhvadi_def gam_divadi_def)
  have n: "length (filter (\<lambda>p. \<not> default p \<and> Paradigm.id p = Paradigm.id gam_divadi)
                     (Root_paradigms example_DB gam)) = 1"
    by (simp add: Root_paradigms_gam gam_bhvadi_def gam_divadi_def)
  have u: "Root_paradigms example_DB upa_gam = [upa_gam_divadi]"
    by (simp add: Root_paradigms_def example_defs)
  have uid: "map Paradigm.id (Root_paradigms example_DB upa_gam) = [2]"
    by (simp add: u upa_gam_divadi_def)
  have qid: "Paradigm.id gam_divadi = 3"
    by (simp add: gam_divadi_def)
  have un: "\<forall>p \<in> set (Root_paradigms example_DB upa_gam). Paradigm.id p \<noteq> Paradigm.id gam_divadi"
    by (simp add: u upa_gam_divadi_def gam_divadi_def)
  have ud: "default_paradigms example_DB upa_gam = []"
    by (simp add: default_paradigms_def u upa_gam_divadi_def)
  note inst = default_flag_unconstrained [where db = example_DB and r = gam
      and i = "Paradigm.id gam_divadi" and q = gam_divadi and r' = upa_gam]
  from inst have "length (default_paradigms (mark_default (Paradigm.id gam_divadi) example_DB) gam)
       = length (default_paradigms example_DB gam)
         + length (filter (\<lambda>p. \<not> default p \<and> Paradigm.id p = Paradigm.id gam_divadi)
                     (Root_paradigms example_DB gam))"
    by blast
  then have two: "length (default_paradigms (mark_default (Paradigm.id gam_divadi) example_DB) gam)
      = 2"
    by (simp only: d n) simp
  from inst un
  have "default_paradigms (mark_default (Paradigm.id gam_divadi) example_DB) upa_gam
      = default_paradigms example_DB upa_gam"
    by blast
  then have keep: "default_paradigms (mark_default (Paradigm.id gam_divadi) example_DB) upa_gam = []"
    by (simp only: ud)
  show ?thesis
    using q nd d two uid qid keep by blast
qed

section \<open>Properties of the operations\<close>

subsection \<open>Position contiguity\<close>

lemma sorted_map_Some: "sorted (map Some xs) = sorted (xs :: nat list)"
  by (induction xs) auto

lemma positions_sorted_unique:
  assumes "mset (map position xs) = mset (map Some [0 ..< n])"
  shows "map position (sort_key position xs) = map Some [0 ..< n]"
proof -
  have "sorted (map position (sort_key position xs))"
    by (rule sorted_sort_key)
  moreover have "mset (map position (sort_key position xs)) = mset (map Some [0 ..< n])"
    using assms by simp
  moreover have "sorted (map Some [0 ..< n])"
    by (simp add: sorted_map_Some)
  ultimately show ?thesis
    using properties_for_sort [of "map position (sort_key position xs)" "map Some [0 ..< n]"]
      properties_for_sort [of "map Some [0 ..< n]" "map Some [0 ..< n]"]
    by simp
qed

lemma contiguous_iff:
  "contiguous owner tbl \<longleftrightarrow>
     (\<exists>n. mset (map position (filter (\<lambda>a. root_id a = Some owner) tbl)) = mset (map Some [0 ..< n]))"
  (is "?L \<longleftrightarrow> ?R")
proof
  assume ?L
  then have "mset (map position (ordered_assocs owner tbl))
      = mset (map Some [0 ..< length (ordered_assocs owner tbl)])"
    by (simp add: contiguous_def)
  then show ?R
    unfolding ordered_assocs_def by auto
next
  assume ?R
  then obtain n where n: "mset (map position (filter (\<lambda>a. root_id a = Some owner) tbl))
      = mset (map Some [0 ..< n])" by blast
  then have "length (map position (filter (\<lambda>a. root_id a = Some owner) tbl))
      = length (map Some [0 ..< n])" by (rule mset_eq_length)
  then have len: "length (ordered_assocs owner tbl) = n"
    by (simp add: ordered_assocs_def)
  show ?L
    unfolding contiguous_def len
    unfolding ordered_assocs_def
    by (rule positions_sorted_unique [OF n])
qed

lemma upt_split:
  assumes "pos \<le> n"
  shows "[0 ..< n] = [0 ..< pos] @ [pos ..< n]"
proof -
  have "[0 ..< pos + (n - pos)] = [0 ..< pos] @ [pos ..< pos + (n - pos)]"
    by (rule upt_add_eq_append) simp
  then show ?thesis using assms by simp
qed

lemma shift_up_upt:
  assumes "pos \<le> n"
  shows "mset (map (\<lambda>p. if pos \<le> p then Suc p else p) [0 ..< n]) + {#pos#} = mset [0 ..< Suc n]"
proof -
  have a: "map (\<lambda>p. if pos \<le> p then Suc p else p) [0 ..< pos] = [0 ..< pos]"
    by (rule map_idI) simp
  have b: "map (\<lambda>p. if pos \<le> p then Suc p else p) [pos ..< n] = map Suc [pos ..< n]"
    by (rule map_cong) auto
  have c: "map Suc [pos ..< n] = [Suc pos ..< Suc n]"
    by (simp add: map_Suc_upt)
  have "[0 ..< Suc n] = [0 ..< pos] @ [pos ..< Suc n]"
    using assms by (intro upt_split) simp
  also have "[pos ..< Suc n] = pos # [Suc pos ..< Suc n]"
    using assms by (simp add: upt_conv_Cons)
  finally have whole: "[0 ..< Suc n] = [0 ..< pos] @ pos # [Suc pos ..< Suc n]" .
  show ?thesis
    unfolding whole upt_split [OF assms] by (simp add: a b c)
qed

lemma shift_down_upt:
  assumes "pos < n"
  shows "mset (map (\<lambda>p. if pos < p then p - 1 else p) (filter (\<lambda>p. p \<noteq> pos) [0 ..< n]))
           = mset [0 ..< n - 1]"
proof -
  have "[0 ..< n] = [0 ..< pos] @ [pos ..< n]"
    using assms by (intro upt_split) simp
  also have "[pos ..< n] = pos # [Suc pos ..< n]"
    using assms by (simp add: upt_conv_Cons)
  finally have split: "[0 ..< n] = [0 ..< pos] @ pos # [Suc pos ..< n]" .
  have f1: "filter (\<lambda>p. p \<noteq> pos) [0 ..< pos] = [0 ..< pos]"
    by (rule filter_True) simp
  have f2: "filter (\<lambda>p. p \<noteq> pos) [Suc pos ..< n] = [Suc pos ..< n]"
    by (rule filter_True) simp
  have a: "map (\<lambda>p. if pos < p then p - 1 else p) [0 ..< pos] = [0 ..< pos]"
    by (rule map_idI) simp
  have b: "map (\<lambda>p. if pos < p then p - 1 else p) [Suc pos ..< n] = map (\<lambda>p. p - 1) [Suc pos ..< n]"
    by (rule map_cong) auto
  have c: "map (\<lambda>p. p - 1) [Suc pos ..< n] = [pos ..< n - 1]"
    using assms by (intro nth_equalityI) auto
  have whole: "[0 ..< n - 1] = [0 ..< pos] @ [pos ..< n - 1]"
    using assms by (intro upt_split) simp
  have "map (\<lambda>p. if pos < p then p - 1 else p) (filter (\<lambda>p. p \<noteq> pos) [0 ..< n])
          = [0 ..< n - 1]"
    unfolding split whole using c by (simp add: f1 f2 a b)
  then show ?thesis by (rule arg_cong)
qed

lemma owned_positions_append:
  "mset (map position (filter (\<lambda>a. root_id a = Some owner) (fst (append_assoc owner item tbl))))
     = mset (map position (filter (\<lambda>a. root_id a = Some owner) tbl))
       + {#Some (length (filter (\<lambda>a. root_id a = Some owner) tbl))#}"
  by (simp add: append_assoc_def Let_def ordered_assocs_def)

lemma other_rows_append:
  "owner' \<noteq> owner \<Longrightarrow>
   filter (\<lambda>a. root_id a = Some owner') (fst (append_assoc owner item tbl))
     = filter (\<lambda>a. root_id a = Some owner') tbl"
  by (simp add: append_assoc_def Let_def)

lemma contiguous_append:
  assumes "contiguous owner' tbl"
  shows "contiguous owner' (fst (append_assoc owner item tbl))"
proof (cases "owner' = owner")
  case False
  then show ?thesis
    using assms by (simp add: contiguous_iff other_rows_append)
next
  case True
  from assms obtain n where n:
    "mset (map position (filter (\<lambda>a. root_id a = Some owner) tbl)) = mset (map Some [0 ..< n])"
    unfolding True contiguous_iff by blast
  then have "length (map position (filter (\<lambda>a. root_id a = Some owner) tbl))
      = length (map Some [0 ..< n])" by (rule mset_eq_length)
  then have len: "length (filter (\<lambda>a. root_id a = Some owner) tbl) = n" by simp
  have "mset (map position (filter (\<lambda>a. root_id a = Some owner) (fst (append_assoc owner item tbl))))
      = mset (map Some [0 ..< Suc n])"
    unfolding owned_positions_append len n by simp
  then show ?thesis
    unfolding True contiguous_iff by blast
qed

lemma mset_map_cong: "mset xs = mset ys \<Longrightarrow> mset (map f xs) = mset (map f ys)"
  by (metis mset_map)

lemma mset_filter_cong: "mset xs = mset ys \<Longrightarrow> mset (filter P xs) = mset (filter P ys)"
  by (metis mset_filter)

lemma owned_length:
  assumes "mset (map position (filter (\<lambda>a. root_id a = Some owner) tbl)) = mset (map Some [0 ..< n])"
  shows "length (filter (\<lambda>a. root_id a = Some owner) tbl) = n"
proof -
  from assms have "length (map position (filter (\<lambda>a. root_id a = Some owner) tbl))
      = length (map Some [0 ..< n])" by (rule mset_eq_length)
  then show ?thesis by simp
qed

lemma owned_positions_shift:
  assumes "\<And>a. root_id (f a) = root_id a"
    and "\<And>a. root_id a = Some owner \<Longrightarrow> position (f a) = g (position a)"
  shows "map position (filter (\<lambda>a. root_id a = Some owner) (map f tbl))
           = map g (map position (filter (\<lambda>a. root_id a = Some owner) tbl))"
  using assms by (induction tbl) auto

lemma other_rows_shift:
  assumes "\<And>a. root_id a \<noteq> Some owner \<Longrightarrow> f a = a"
    and "\<And>a. root_id (f a) = root_id a"
    and "owner' \<noteq> owner"
  shows "filter (\<lambda>a. root_id a = Some owner') (map f tbl)
           = filter (\<lambda>a. root_id a = Some owner') tbl"
  using assms by (induction tbl) auto

lemma contiguous_insert_at:
  assumes inv: "contiguous owner' tbl"
    and ok: "insert_at owner item pos tbl = Inr tbl'"
  shows "contiguous owner' tbl'"
proof -
  let ?f = "\<lambda>a. if root_id a = Some owner \<and> Some pos \<le> position a
                 then a\<lparr>position := map_option Suc (position a)\<rparr> else a"
  let ?g = "\<lambda>q. if Some pos \<le> q then map_option Suc q else q"
  from ok have le: "pos \<le> length (ordered_assocs owner tbl)"
    and tbl': "tbl' = map ?f tbl @ [item\<lparr>root_id := Some owner, position := Some pos\<rparr>]"
    by (auto simp: insert_at_def split: if_splits)
  show ?thesis
  proof (cases "owner' = owner")
    case False
    have "filter (\<lambda>a. root_id a = Some owner') tbl' = filter (\<lambda>a. root_id a = Some owner') tbl"
      unfolding tbl' using False other_rows_shift [of owner ?f owner' tbl] by simp
    then show ?thesis using inv by (simp add: contiguous_iff)
  next
    case True
    from inv obtain n where n:
      "mset (map position (filter (\<lambda>a. root_id a = Some owner) tbl)) = mset (map Some [0 ..< n])"
      unfolding True contiguous_iff by blast
    have len: "length (filter (\<lambda>a. root_id a = Some owner) tbl) = n"
      by (rule owned_length [OF n])
    have le': "pos \<le> n"
      using le len by (simp add: ordered_assocs_def)
    have "map position (filter (\<lambda>a. root_id a = Some owner) (map ?f tbl))
        = map ?g (map position (filter (\<lambda>a. root_id a = Some owner) tbl))"
      by (rule owned_positions_shift) auto
    then have "mset (map position (filter (\<lambda>a. root_id a = Some owner) (map ?f tbl)))
        = mset (map ?g (map Some [0 ..< n]))"
      by (simp only: mset_map_cong [OF n])
    also have "map ?g (map Some [0 ..< n]) = map Some (map (\<lambda>p. if pos \<le> p then Suc p else p) [0 ..< n])"
      by simp
    finally have shifted: "mset (map position (filter (\<lambda>a. root_id a = Some owner) (map ?f tbl)))
        = image_mset Some (mset (map (\<lambda>p. if pos \<le> p then Suc p else p) [0 ..< n]))"
      by (simp only: mset_map)
    have "mset (map position (filter (\<lambda>a. root_id a = Some owner) tbl'))
        = mset (map position (filter (\<lambda>a. root_id a = Some owner) (map ?f tbl))) + {#Some pos#}"
      unfolding tbl' by simp
    also have "\<dots> = image_mset Some (mset (map (\<lambda>p. if pos \<le> p then Suc p else p) [0 ..< n]) + {#pos#})"
      unfolding shifted by simp
    also have "\<dots> = image_mset Some (mset [0 ..< Suc n])"
      unfolding shift_up_upt [OF le'] ..
    finally have "mset (map position (filter (\<lambda>a. root_id a = Some owner) tbl'))
        = mset (map Some [0 ..< Suc n])"
      by (simp only: mset_map)
    then show ?thesis
      unfolding True contiguous_iff by blast
  qed
qed

lemma contiguous_remove:
  assumes inv: "contiguous owner' tbl"
    and ok: "remove_assoc owner pos tbl = Inr tbl'"
  shows "contiguous owner' tbl'"
proof -
  let ?f = "\<lambda>a. if root_id a = Some owner \<and> Some pos < position a
                 then a\<lparr>position := map_option (\<lambda>p. p - 1) (position a)\<rparr> else a"
  let ?g = "\<lambda>q. if Some pos < q then map_option (\<lambda>p. p - 1) q else q"
  let ?keep = "\<lambda>a. \<not> (root_id a = Some owner \<and> position a = Some pos)"
  from ok have ex: "list_ex (\<lambda>a. root_id a = Some owner \<and> position a = Some pos) tbl"
    and tbl': "tbl' = map ?f (filter ?keep tbl)"
    by (auto simp: remove_assoc_def split: if_splits)
  show ?thesis
  proof (cases "owner' = owner")
    case False
    have "filter (\<lambda>a. root_id a = Some owner') tbl'
        = filter (\<lambda>a. root_id a = Some owner') (filter ?keep tbl)"
      unfolding tbl' using False other_rows_shift [of owner ?f owner' "filter ?keep tbl"] by simp
    also have "\<dots> = filter (\<lambda>a. root_id a = Some owner') tbl"
      using False by (induction tbl) auto
    finally show ?thesis using inv by (simp add: contiguous_iff)
  next
    case True
    from inv obtain n where n:
      "mset (map position (filter (\<lambda>a. root_id a = Some owner) tbl)) = mset (map Some [0 ..< n])"
      unfolding True contiguous_iff by blast
    from ex obtain a where "a \<in> set tbl" "root_id a = Some owner" "position a = Some pos"
      by (auto simp: list_ex_iff)
    then have "Some pos \<in> set (map position (filter (\<lambda>a. root_id a = Some owner) tbl))"
      by force
    then have "Some pos \<in># mset (map Some [0 ..< n])"
      unfolding n [symmetric] by simp
    then have lt: "pos < n" by auto
    have owner_keep: "filter (\<lambda>a. root_id a = Some owner) (filter ?keep tbl)
        = filter (\<lambda>a. position a \<noteq> Some pos) (filter (\<lambda>a. root_id a = Some owner) tbl)"
      by (induction tbl) auto
    have "map position (filter (\<lambda>a. root_id a = Some owner) tbl')
        = map ?g (map position (filter (\<lambda>a. root_id a = Some owner) (filter ?keep tbl)))"
      unfolding tbl' by (rule owned_positions_shift) auto
    also have "map position (filter (\<lambda>a. root_id a = Some owner) (filter ?keep tbl))
        = filter (\<lambda>q. q \<noteq> Some pos) (map position (filter (\<lambda>a. root_id a = Some owner) tbl))"
      unfolding owner_keep by (simp add: filter_map comp_def)
    finally have "map position (filter (\<lambda>a. root_id a = Some owner) tbl')
        = map ?g (filter (\<lambda>q. q \<noteq> Some pos)
                    (map position (filter (\<lambda>a. root_id a = Some owner) tbl)))" .
    then have "mset (map position (filter (\<lambda>a. root_id a = Some owner) tbl'))
        = mset (map ?g (filter (\<lambda>q. q \<noteq> Some pos) (map Some [0 ..< n])))"
      by (simp only: mset_map_cong [OF mset_filter_cong [OF n]])
    also have "map ?g (filter (\<lambda>q. q \<noteq> Some pos) (map Some [0 ..< n]))
        = map Some (map (\<lambda>p. if pos < p then p - 1 else p) (filter (\<lambda>p. p \<noteq> pos) [0 ..< n]))"
      by (simp add: filter_map comp_def)
    also have "mset \<dots> = image_mset Some (mset [0 ..< n - 1])"
      using shift_down_upt [OF lt] by (simp only: mset_map)
    finally have "mset (map position (filter (\<lambda>a. root_id a = Some owner) tbl'))
        = mset (map Some [0 ..< n - 1])"
      by (simp only: mset_map)
    then show ?thesis
      unfolding True contiguous_iff by blast
  qed
qed

lemma contiguous_apply_op:
  assumes "contiguous owner tbl"
  shows "contiguous owner (apply_op tbl op)"
proof (cases op)
  case (Append o' item)
  then show ?thesis
    using assms by (simp add: contiguous_append)
next
  case (InsertAt o' item pos)
  show ?thesis
  proof (cases "insert_at o' item pos tbl")
    case (Inl e)
    then show ?thesis using assms InsertAt by simp
  next
    case (Inr tbl')
    then show ?thesis
      using contiguous_insert_at [OF assms Inr] InsertAt by simp
  qed
next
  case (Remove o' pos)
  show ?thesis
  proof (cases "remove_assoc o' pos tbl")
    case (Inl e)
    then show ?thesis using assms Remove by simp
  next
    case (Inr tbl')
    then show ?thesis
      using contiguous_remove [OF assms Inr] Remove by simp
  qed
qed

lemma contiguous_apply_ops:
  "contiguous owner tbl \<Longrightarrow> contiguous owner (apply_ops tbl ops)"
  unfolding apply_ops_def
  by (induction ops arbitrary: tbl) (simp_all add: contiguous_apply_op)

text \<open>
  Claim C1. For every owner of an ordered association, after any sequence of append,
  insert-at and remove calls the owner's items, read in order, carry the positions
  \<open>0, \<dots>, count - 1\<close>: no gaps and no duplicates. This holds from every table in which the
  owner's positions are contiguous, so from the empty table, and so for the prefix list of
  a \<^verbatim>\<open>PrefixedRoot\<close> and the modification list of a \<^verbatim>\<open>ModifiedRoot\<close>.
\<close>

theorem ordered_positions_contiguous:
  "(contiguous owner tbl \<longrightarrow>
      map position (ordered_assocs owner (apply_ops tbl ops))
        = map Some [0 ..< length (ordered_assocs owner (apply_ops tbl ops))]
      \<and> distinct (map position (ordered_assocs owner (apply_ops tbl ops))))
   \<and> map position (ordered_assocs owner (apply_ops [] ops'))
        = map Some [0 ..< length (ordered_assocs owner (apply_ops [] ops'))]
   \<and> (contiguous (SimpleBase.id r) (root_prefix_association_table db) \<longrightarrow>
        map position (PrefixedRoot_prefix_assocs
            (db\<lparr>root_prefix_association_table :=
                  apply_ops (root_prefix_association_table db) pops\<rparr>) r)
          = map Some [0 ..< length (PrefixedRoot_prefix_assocs
            (db\<lparr>root_prefix_association_table :=
                  apply_ops (root_prefix_association_table db) pops\<rparr>) r)])
   \<and> (contiguous (SimpleBase.id r) (root_mod_association_table db) \<longrightarrow>
        map position (ModifiedRoot_mod_assocs
            (db\<lparr>root_mod_association_table :=
                  apply_ops (root_mod_association_table db) mops\<rparr>) r)
          = map Some [0 ..< length (ModifiedRoot_mod_assocs
            (db\<lparr>root_mod_association_table :=
                  apply_ops (root_mod_association_table db) mops\<rparr>) r)])"
proof -
  have general: "map position (ordered_assocs i (apply_ops t os))
        = map Some [0 ..< length (ordered_assocs i (apply_ops t os))]"
    if "contiguous i t" for i and t :: "'x OrderedAssociation_scheme list" and os
    using contiguous_apply_ops [OF that, of os] by (simp add: contiguous_def)
  have dist: "distinct (map position (ordered_assocs owner (apply_ops tbl ops)))"
    if "contiguous owner tbl"
    unfolding general [OF that] by (simp add: distinct_map)
  have empty: "contiguous owner ([] :: 'y OrderedAssociation_scheme list)"
    by (simp add: contiguous_def ordered_assocs_def)
  show ?thesis
    using general [of owner tbl ops] dist general [OF empty, of ops']
      general [of "SimpleBase.id r" "root_prefix_association_table db" pops]
      general [of "SimpleBase.id r" "root_mod_association_table db" mops]
    by (simp add: PrefixedRoot_prefix_assocs_def ModifiedRoot_mod_assocs_def)
qed

lemma example_prefix_ops_result:
  "ordered_assocs 9 (apply_ops example_prefix_assocs example_prefix_ops) =
     [\<lparr>OrderedAssociation.id = 7, root_id = Some 9, position = Some 0, prefix_id = Some 1\<rparr>,
      \<lparr>OrderedAssociation.id = 2, root_id = Some 9, position = Some 1, prefix_id = Some 2\<rparr>,
      \<lparr>OrderedAssociation.id = 6, root_id = Some 9, position = Some 2, prefix_id = Some 2\<rparr>]"
  by (simp add: example_defs assoc_op_defs)

text \<open>
  Witness for C1: on the prefix list \<open>sam, upa\<close> of \<open>sam-upa-gam\<close>, append \<open>upa\<close>, insert
  \<open>sam\<close> at 1 and remove position 0 (the two other calls on it fail); three items remain, at
  the positions 0, 1, 2. On the modification list of \<open>sam-gamaya\<close>, insert \<open>desiderative\<close>
  at 0; two items, at the positions 0 and 1.
\<close>

theorem ordered_positions_contiguous_witness:
  "contiguous 9 example_prefix_assocs
   \<and> length (ordered_assocs 9 (apply_ops example_prefix_assocs example_prefix_ops)) = 3
   \<and> map prefix_id (ordered_assocs 9 (apply_ops example_prefix_assocs example_prefix_ops))
       = [Some 1, Some 2, Some 2]
   \<and> map position (ordered_assocs 9 (apply_ops example_prefix_assocs example_prefix_ops))
       = [Some 0, Some 1, Some 2]
   \<and> contiguous (SimpleBase.id sam_upa_gam) (root_prefix_association_table example_DB)
   \<and> map position (PrefixedRoot_prefix_assocs
         (example_DB\<lparr>root_prefix_association_table :=
            apply_ops (root_prefix_association_table example_DB) example_prefix_ops\<rparr>)
         sam_upa_gam)
       = [Some 0, Some 1, Some 2]
   \<and> contiguous (SimpleBase.id sam_gamaya) (root_mod_association_table example_DB)
   \<and> map position (ModifiedRoot_mod_assocs
         (example_DB\<lparr>root_mod_association_table :=
            apply_ops (root_mod_association_table example_DB) sam_gamaya_mod_ops\<rparr>)
         sam_gamaya)
       = [Some 0, Some 1]"
proof -
  have pt: "root_prefix_association_table example_DB = example_prefix_assocs"
    and mt: "root_mod_association_table example_DB = example_mod_assocs"
    and ids: "SimpleBase.id sam_upa_gam = 9" "SimpleBase.id sam_gamaya = 10"
    by (simp_all add: example_DB_def empty_DB_def sam_upa_gam_def sam_gamaya_def)
  have inv: "contiguous 9 example_prefix_assocs"
    by (simp add: contiguous_def example_defs assoc_op_defs)
  have inv': "contiguous 10 example_mod_assocs"
    by (simp add: contiguous_def example_defs assoc_op_defs)
  have len: "length (ordered_assocs 9 (apply_ops example_prefix_assocs example_prefix_ops)) = 3"
    by (simp add: example_prefix_ops_result)
  have items: "map prefix_id (ordered_assocs 9 (apply_ops example_prefix_assocs example_prefix_ops))
       = [Some 1, Some 2, Some 2]"
    by (simp add: example_prefix_ops_result)
  have len': "length (ordered_assocs 10 (apply_ops example_mod_assocs sam_gamaya_mod_ops)) = 2"
    by (simp add: example_defs assoc_op_defs)
  have upt: "[0 ..< 3] = [0, 1, 2::nat]" "[0 ..< 2] = [0, 1::nat]"
    by (simp_all add: upt_rec)
  note inst = ordered_positions_contiguous [where owner = 9 and tbl = example_prefix_assocs
      and ops = example_prefix_ops and db = example_DB and r = sam_upa_gam
      and pops = example_prefix_ops]
    ordered_positions_contiguous [where db = example_DB and r = sam_gamaya
      and mops = sam_gamaya_mod_ops]
  from inv inst(1)
  have a: "map position (ordered_assocs 9 (apply_ops example_prefix_assocs example_prefix_ops))
      = map Some [0 ..< length (ordered_assocs 9 (apply_ops example_prefix_assocs example_prefix_ops))]"
    by blast
  from inv inst(1)
  have b: "map position (PrefixedRoot_prefix_assocs
         (example_DB\<lparr>root_prefix_association_table :=
            apply_ops (root_prefix_association_table example_DB) example_prefix_ops\<rparr>)
         sam_upa_gam)
      = map Some [0 ..< length (PrefixedRoot_prefix_assocs
         (example_DB\<lparr>root_prefix_association_table :=
            apply_ops (root_prefix_association_table example_DB) example_prefix_ops\<rparr>)
         sam_upa_gam)]"
    unfolding pt ids by blast
  from inv' inst(2)
  have c: "map position (ModifiedRoot_mod_assocs
         (example_DB\<lparr>root_mod_association_table :=
            apply_ops (root_mod_association_table example_DB) sam_gamaya_mod_ops\<rparr>)
         sam_gamaya)
      = map Some [0 ..< length (ModifiedRoot_mod_assocs
         (example_DB\<lparr>root_mod_association_table :=
            apply_ops (root_mod_association_table example_DB) sam_gamaya_mod_ops\<rparr>)
         sam_gamaya)]"
    unfolding mt ids by blast
  have lb: "length (PrefixedRoot_prefix_assocs
         (example_DB\<lparr>root_prefix_association_table :=
            apply_ops (root_prefix_association_table example_DB) example_prefix_ops\<rparr>)
         sam_upa_gam) = 3"
    unfolding pt by (simp add: PrefixedRoot_prefix_assocs_def ids len)
  have lc: "length (ModifiedRoot_mod_assocs
         (example_DB\<lparr>root_mod_association_table :=
            apply_ops (root_mod_association_table example_DB) sam_gamaya_mod_ops\<rparr>)
         sam_gamaya) = 2"
    unfolding mt by (simp add: ModifiedRoot_mod_assocs_def ids len')
  have a': "map position (ordered_assocs 9 (apply_ops example_prefix_assocs example_prefix_ops))
      = [Some 0, Some 1, Some 2]"
    using a unfolding len by (simp add: upt)
  have b': "map position (PrefixedRoot_prefix_assocs
         (example_DB\<lparr>root_prefix_association_table :=
            apply_ops (root_prefix_association_table example_DB) example_prefix_ops\<rparr>)
         sam_upa_gam) = [Some 0, Some 1, Some 2]"
    using b unfolding lb by (simp add: upt)
  have c': "map position (ModifiedRoot_mod_assocs
         (example_DB\<lparr>root_mod_association_table :=
            apply_ops (root_mod_association_table example_DB) sam_gamaya_mod_ops\<rparr>)
         sam_gamaya) = [Some 0, Some 1]"
    using c unfolding lc by (simp add: upt)
  have "contiguous (SimpleBase.id sam_upa_gam) (root_prefix_association_table example_DB)"
    "contiguous (SimpleBase.id sam_gamaya) (root_mod_association_table example_DB)"
    unfolding pt mt ids using inv inv' by simp_all
  then show ?thesis
    using inv len items a' b' c' by blast
qed

subsection \<open>Independence of the two lists of a prefixed and modified root\<close>

lemma other_owner_rows:
  assumes "filter (\<lambda>a. root_id a \<noteq> Some i) t = filter (\<lambda>a. root_id a \<noteq> Some i) t0"
    and "j \<noteq> i"
  shows "filter (\<lambda>a. root_id a = Some j) t = filter (\<lambda>a. root_id a = Some j) t0"
proof -
  have eq: "\<And>xs. filter (\<lambda>a. root_id a = Some j) (filter (\<lambda>a. root_id a \<noteq> Some i) xs)
                = filter (\<lambda>a. root_id a = Some j) xs"
    using assms(2) by (auto intro: filter_cong)
  show ?thesis
    using arg_cong [OF assms(1), of "filter (\<lambda>a. root_id a = Some j)"] by (simp only: eq)
qed

lemma ordered_assocs_frame:
  assumes "filter (\<lambda>a. root_id a \<noteq> Some i) t = filter (\<lambda>a. root_id a \<noteq> Some i) t0"
    and "j \<noteq> i"
  shows "ordered_assocs j t = ordered_assocs j t0"
  unfolding ordered_assocs_def using other_owner_rows [OF assms] by simp

lemma apply_op_frame:
  assumes "op_owner op = i"
  shows "filter (\<lambda>a. root_id a \<noteq> Some i) (apply_op tbl op) = filter (\<lambda>a. root_id a \<noteq> Some i) tbl"
proof (cases op)
  case (Append o' item)
  then show ?thesis using assms by (simp add: append_assoc_def Let_def)
next
  case (InsertAt o' item pos)
  have "filter (\<lambda>a. root_id a \<noteq> Some i)
          (map (\<lambda>a. if root_id a = Some i \<and> Some pos \<le> position a
                    then a\<lparr>position := map_option Suc (position a)\<rparr> else a) tbl)
        = filter (\<lambda>a. root_id a \<noteq> Some i) tbl"
    by (induction tbl) auto
  then show ?thesis
    using assms InsertAt by (simp add: insert_at_def)
next
  case (Remove o' pos)
  have "filter (\<lambda>a. root_id a \<noteq> Some i)
          (map (\<lambda>a. if root_id a = Some i \<and> Some pos < position a
                    then a\<lparr>position := map_option (\<lambda>p. p - 1) (position a)\<rparr> else a)
            (filter (\<lambda>a. \<not> (root_id a = Some i \<and> position a = Some pos)) tbl))
        = filter (\<lambda>a. root_id a \<noteq> Some i) tbl"
    by (induction tbl) auto
  then show ?thesis
    using assms Remove by (simp add: remove_assoc_def)
qed

lemma apply_ops_frame:
  "\<forall>op \<in> set ops. op_owner op = i \<Longrightarrow>
   filter (\<lambda>a. root_id a \<noteq> Some i) (apply_ops tbl ops) = filter (\<lambda>a. root_id a \<noteq> Some i) tbl"
  unfolding apply_ops_def
  by (induction ops arbitrary: tbl) (simp_all add: apply_op_frame)

lemma ordered_assocs_sorted: "sorted (map position (ordered_assocs k tbl))"
  by (simp add: ordered_assocs_def)

lemma ordered_assocs_mset:
  "mset (ordered_assocs k tbl) = mset (filter (\<lambda>a. root_id a = Some k) tbl)"
  by (simp add: ordered_assocs_def)

text \<open>
  Claim C2. A \<^verbatim>\<open>PrefixedModifiedRoot\<close> has a prefix list and a modification list of its
  own: the inherited \<open>prefix_assocs\<close> and the re-declared \<open>mod_assocs\<close> are the rows of
  two tables that point at the root, each by position. So whatever becomes of the table of
  prefix associations leaves its modification list as it was, and conversely; and any
  sequence of append, insert-at and remove calls on the two lists of \<open>r\<close> leaves both
  lists of a root \<open>r'\<close> with another id as they were.
\<close>

theorem diamond_lists_independent:
  "PrefixedModifiedRoot_mod_assocs (db\<lparr>root_prefix_association_table := t\<rparr>) r
     = PrefixedModifiedRoot_mod_assocs db r
   \<and> PrefixedModifiedRoot_prefix_assocs (db\<lparr>root_mod_association_table := u\<rparr>) r
     = PrefixedModifiedRoot_prefix_assocs db r
   \<and> ((\<forall>op \<in> set pops. op_owner op = SimpleBase.id r)
        \<and> (\<forall>op \<in> set mops. op_owner op = SimpleBase.id r)
        \<and> SimpleBase.id r' \<noteq> SimpleBase.id r
      \<longrightarrow> PrefixedModifiedRoot_prefix_assocs
            (db\<lparr>root_prefix_association_table :=
                  apply_ops (root_prefix_association_table db) pops,
                root_mod_association_table :=
                  apply_ops (root_mod_association_table db) mops\<rparr>) r'
            = PrefixedModifiedRoot_prefix_assocs db r'
          \<and> PrefixedModifiedRoot_mod_assocs
            (db\<lparr>root_prefix_association_table :=
                  apply_ops (root_prefix_association_table db) pops,
                root_mod_association_table :=
                  apply_ops (root_mod_association_table db) mops\<rparr>) r'
            = PrefixedModifiedRoot_mod_assocs db r')
   \<and> PrefixedModifiedRoot_prefix_assocs db r = PrefixedRoot_prefix_assocs db r
   \<and> PrefixedModifiedRoot_mod_assocs db r = ModifiedRoot_mod_assocs db r
   \<and> mset (PrefixedModifiedRoot_prefix_assocs db r)
       = mset (filter (\<lambda>a. root_id a = Some (SimpleBase.id r))
                 (root_prefix_association_table db))
   \<and> mset (PrefixedModifiedRoot_mod_assocs db r)
       = mset (filter (\<lambda>a. root_id a = Some (SimpleBase.id r))
                 (root_mod_association_table db))
   \<and> sorted (map position (PrefixedModifiedRoot_prefix_assocs db r))
   \<and> sorted (map position (PrefixedModifiedRoot_mod_assocs db r))"
proof -
  let ?i = "SimpleBase.id r" and ?j = "SimpleBase.id r'"
  let ?pt = "root_prefix_association_table db" and ?mt = "root_mod_association_table db"
  have frame_p: "ordered_assocs ?j (apply_ops ?pt pops) = ordered_assocs ?j ?pt"
    if "\<forall>op \<in> set pops. op_owner op = ?i" "?j \<noteq> ?i"
    using that by (intro ordered_assocs_frame [of ?i] apply_ops_frame)
  have frame_m: "ordered_assocs ?j (apply_ops ?mt mops) = ordered_assocs ?j ?mt"
    if "\<forall>op \<in> set mops. op_owner op = ?i" "?j \<noteq> ?i"
    using that by (intro ordered_assocs_frame [of ?i] apply_ops_frame)
  show ?thesis
    unfolding PrefixedModifiedRoot_mod_assocs_def PrefixedModifiedRoot_prefix_assocs_def
      PrefixedRoot_prefix_assocs_def ModifiedRoot_mod_assocs_def
    using frame_p frame_m by (simp add: ordered_assocs_sorted ordered_assocs_mset)
qed

text \<open>
  Witness for C2: after the calls on the two lists of \<open>sam-gamaya\<close>, its prefix list is
  \<open>upa\<close> alone, and both lists of \<open>upa-gamaya\<close> are what they were; calls on its prefix
  list alone leave its modification list what it was.
\<close>

theorem diamond_lists_independent_witness:
  "map op_owner sam_gamaya_prefix_ops = [SimpleBase.id sam_gamaya, SimpleBase.id sam_gamaya]
   \<and> map op_owner sam_gamaya_mod_ops = [SimpleBase.id sam_gamaya]
   \<and> SimpleBase.id upa_gamaya \<noteq> SimpleBase.id sam_gamaya
   \<and> PrefixedModifiedRoot_mod_assocs
       (example_DB\<lparr>root_prefix_association_table :=
          apply_ops example_prefix_assocs sam_gamaya_prefix_ops\<rparr>) sam_gamaya
     = [\<lparr>OrderedAssociation.id = 1, root_id = Some 10, position = Some 0,
         modification_id = Some 1\<rparr>]
   \<and> map prefix_id (PrefixedModifiedRoot_prefix_assocs
       (example_DB\<lparr>root_prefix_association_table :=
          apply_ops example_prefix_assocs sam_gamaya_prefix_ops,
        root_mod_association_table := apply_ops example_mod_assocs sam_gamaya_mod_ops\<rparr>)
       sam_gamaya) = [Some 2]
   \<and> PrefixedModifiedRoot_prefix_assocs
       (example_DB\<lparr>root_prefix_association_table :=
          apply_ops example_prefix_assocs sam_gamaya_prefix_ops,
        root_mod_association_table := apply_ops example_mod_assocs sam_gamaya_mod_ops\<rparr>)
       upa_gamaya
     = [\<lparr>OrderedAssociation.id = 5, root_id = Some 11, position = Some 0, prefix_id = Some 2\<rparr>]
   \<and> PrefixedModifiedRoot_mod_assocs
       (example_DB\<lparr>root_prefix_association_table :=
          apply_ops example_prefix_assocs sam_gamaya_prefix_ops,
        root_mod_association_table := apply_ops example_mod_assocs sam_gamaya_mod_ops\<rparr>)
       upa_gamaya
     = [\<lparr>OrderedAssociation.id = 2, root_id = Some 11, position = Some 0,
         modification_id = Some 1\<rparr>]"
proof -
  let ?t = "apply_ops example_prefix_assocs sam_gamaya_prefix_ops"
  let ?u = "apply_ops example_mod_assocs sam_gamaya_mod_ops"
  have ids: "SimpleBase.id upa_gamaya \<noteq> SimpleBase.id sam_gamaya"
    by (simp add: example_defs)
  have pt: "root_prefix_association_table example_DB = example_prefix_assocs"
    and mt: "root_mod_association_table example_DB = example_mod_assocs"
    by (simp_all add: example_DB_def empty_DB_def)
  have po: "map op_owner sam_gamaya_prefix_ops
      = [SimpleBase.id sam_gamaya, SimpleBase.id sam_gamaya]"
    by (simp add: sam_gamaya_prefix_ops_def sam_gamaya_def)
  have mo: "map op_owner sam_gamaya_mod_ops = [SimpleBase.id sam_gamaya]"
    by (simp add: sam_gamaya_mod_ops_def sam_gamaya_def)
  have pall: "\<forall>op \<in> set sam_gamaya_prefix_ops. op_owner op = SimpleBase.id sam_gamaya"
    by (simp add: sam_gamaya_prefix_ops_def sam_gamaya_def)
  have mall: "\<forall>op \<in> set sam_gamaya_mod_ops. op_owner op = SimpleBase.id sam_gamaya"
    by (simp add: sam_gamaya_mod_ops_def sam_gamaya_def)
  have m0: "PrefixedModifiedRoot_mod_assocs example_DB sam_gamaya
      = [\<lparr>OrderedAssociation.id = 1, root_id = Some 10, position = Some 0,
          modification_id = Some 1\<rparr>]"
    by (simp add: PrefixedModifiedRoot_mod_assocs_def ordered_assocs_def example_defs)
  have p1: "PrefixedModifiedRoot_prefix_assocs example_DB upa_gamaya
      = [\<lparr>OrderedAssociation.id = 5, root_id = Some 11, position = Some 0, prefix_id = Some 2\<rparr>]"
    by (simp add: PrefixedModifiedRoot_prefix_assocs_def PrefixedRoot_prefix_assocs_def
        ordered_assocs_def example_defs)
  have m1: "PrefixedModifiedRoot_mod_assocs example_DB upa_gamaya
      = [\<lparr>OrderedAssociation.id = 2, root_id = Some 11, position = Some 0,
          modification_id = Some 1\<rparr>]"
    by (simp add: PrefixedModifiedRoot_mod_assocs_def ordered_assocs_def example_defs)
  have changed: "map prefix_id (PrefixedModifiedRoot_prefix_assocs
       (example_DB\<lparr>root_prefix_association_table := ?t, root_mod_association_table := ?u\<rparr>)
       sam_gamaya) = [Some 2]"
    by (simp add: PrefixedModifiedRoot_prefix_assocs_def PrefixedRoot_prefix_assocs_def
        example_defs assoc_op_defs)
  note inst = diamond_lists_independent [where db = example_DB and t = ?t
      and pops = sam_gamaya_prefix_ops and mops = sam_gamaya_mod_ops
      and r = sam_gamaya and r' = upa_gamaya]
  from inst have f1: "PrefixedModifiedRoot_mod_assocs
       (example_DB\<lparr>root_prefix_association_table := ?t\<rparr>) sam_gamaya
     = PrefixedModifiedRoot_mod_assocs example_DB sam_gamaya"
    by blast
  from inst pall mall ids
  have f2: "PrefixedModifiedRoot_prefix_assocs
       (example_DB\<lparr>root_prefix_association_table := ?t, root_mod_association_table := ?u\<rparr>)
       upa_gamaya = PrefixedModifiedRoot_prefix_assocs example_DB upa_gamaya"
    and f3: "PrefixedModifiedRoot_mod_assocs
       (example_DB\<lparr>root_prefix_association_table := ?t, root_mod_association_table := ?u\<rparr>)
       upa_gamaya = PrefixedModifiedRoot_mod_assocs example_DB upa_gamaya"
    unfolding pt mt by blast+
  show ?thesis
    using po mo ids changed f1 f2 f3 by (simp only: m0 p1 m1 simp_thms)
qed

subsection \<open>The ultimate basis\<close>

lemma ultimate_basis_from_chain:
  "ultimate_basis_from db h visited r =
     (let cs = basis_chain db (Suc h) r in
      if \<not> (distinct (map SimpleBase.id cs) \<and> set (map SimpleBase.id cs) \<inter> set visited = {})
      then Inl CyclicBasis
      else if length cs \<le> h then Inr (last (r # cs))
      else Inl BasisChainTooLong)"
proof (induction h arbitrary: visited r)
  case 0
  show ?case
    by (cases "Root_basis db r") (auto simp: Let_def)
next
  case (Suc h)
  show ?case
  proof (cases "Root_basis db r")
    case None
    then show ?thesis by (simp add: Let_def)
  next
    case (Some b)
    show ?thesis
    proof (cases "SimpleBase.id b \<in> set visited")
      case True
      then show ?thesis using Some by (simp add: Let_def)
    next
      case False
      have "ultimate_basis_from db (Suc h) visited r
          = ultimate_basis_from db h (SimpleBase.id b # visited) b"
        using Some False by simp
      also note Suc.IH [of "SimpleBase.id b # visited" b]
      finally show ?thesis
        using Some False
        by (auto simp: Let_def)
    qed
  qed
qed

lemma ultimate_basis_from_no_basis:
  "Root_basis db r = None \<Longrightarrow> ultimate_basis_from db n visited r = Inr r"
  by (cases n) simp_all

lemma ultimate_basis_from_revisit:
  "Root_basis db r = Some b \<Longrightarrow> SimpleBase.id b \<in> set visited \<Longrightarrow>
   ultimate_basis_from db n visited r = Inl CyclicBasis"
  by (cases n) simp_all

lemma basis_chain_end:
  "length (basis_chain db n r) < n \<Longrightarrow> Root_basis db (last (r # basis_chain db n r)) = None"
proof (induction n arbitrary: r)
  case 0
  then show ?case by simp
next
  case (Suc n)
  show ?case
  proof (cases "Root_basis db r")
    case None
    then show ?thesis by simp
  next
    case (Some b)
    then have "length (basis_chain db n b) < n" using Suc.prems by simp
    then have "Root_basis db (last (b # basis_chain db n b)) = None" by (rule Suc.IH)
    then show ?thesis using Some by simp
  qed
qed

text \<open>
  Claim C3. \<open>ultimate_basis\<close> follows \<open>basis\<close> until it reaches a root with no basis and
  returns that root; it fails with \<open>CyclicBasis\<close> when an id is met again before the end,
  and with \<open>BasisChainTooLong\<close> when more than 32 hops would be needed. For a chain
  \<open>a \<rightarrow> b \<rightarrow> c\<close> where \<open>c\<close> has no basis it returns \<open>c\<close>, and \<open>CyclicBasis\<close> once the basis of
  \<open>c\<close> is \<open>a\<close>.
\<close>

theorem ultimate_basis_ancestry:
  "ultimate_basis db r =
     (let cs = basis_chain db (Suc hop_limit) r in
      if \<not> distinct (map SimpleBase.id (r # cs)) then Inl CyclicBasis
      else if length cs \<le> hop_limit then Inr (last (r # cs))
      else Inl BasisChainTooLong)
   \<and> hop_limit = 32
   \<and> (ultimate_basis db r = Inr u \<longrightarrow> Root_basis db u = None)
   \<and> (Root_basis db a = Some b \<and> Root_basis db b = Some c \<and> Root_basis db c = None
        \<and> distinct [SimpleBase.id a, SimpleBase.id b, SimpleBase.id c]
      \<longrightarrow> ultimate_basis db a = Inr c)
   \<and> (Root_basis db a = Some b \<and> Root_basis db b = Some c \<and> Root_basis db c = Some a'
        \<and> SimpleBase.id a' = SimpleBase.id a
      \<longrightarrow> ultimate_basis db a = Inl CyclicBasis)"
proof -
  have char: "ultimate_basis db r =
     (let cs = basis_chain db (Suc hop_limit) r in
      if \<not> distinct (map SimpleBase.id (r # cs)) then Inl CyclicBasis
      else if length cs \<le> hop_limit then Inr (last (r # cs))
      else Inl BasisChainTooLong)"
    unfolding ultimate_basis_def ultimate_basis_within_def ultimate_basis_from_chain
    by (auto simp: Let_def)
  have no_basis: "Root_basis db u = None" if "ultimate_basis db r = Inr u"
  proof -
    from that char have "length (basis_chain db (Suc hop_limit) r) < Suc hop_limit"
      and "u = last (r # basis_chain db (Suc hop_limit) r)"
      by (auto simp: Let_def split: if_splits)
    from this(1) have "Root_basis db (last (r # basis_chain db (Suc hop_limit) r)) = None"
      by (rule basis_chain_end)
    then show ?thesis using \<open>u = last (r # basis_chain db (Suc hop_limit) r)\<close> by simp
  qed
  have limit: "hop_limit = Suc (Suc (Suc 29))"
    by (simp add: hop_limit_def)
  have chain: "ultimate_basis db a = Inr c"
    if "Root_basis db a = Some b" "Root_basis db b = Some c" "Root_basis db c = None"
      "distinct [SimpleBase.id a, SimpleBase.id b, SimpleBase.id c]"
  proof -
    have "ultimate_basis_from db (Suc (Suc n)) [SimpleBase.id a] a = Inr c" for n
      using that by (auto simp: ultimate_basis_from_no_basis)
    then show ?thesis
      by (simp only: ultimate_basis_def ultimate_basis_within_def limit)
  qed
  have cycle: "ultimate_basis db a = Inl CyclicBasis"
    if "Root_basis db a = Some b" "Root_basis db b = Some c" "Root_basis db c = Some a'"
      "SimpleBase.id a' = SimpleBase.id a"
  proof -
    have "ultimate_basis_from db (Suc (Suc n)) [SimpleBase.id a] a = Inl CyclicBasis" for n
      using that by (auto simp: ultimate_basis_from_revisit)
    then show ?thesis
      by (simp only: ultimate_basis_def ultimate_basis_within_def limit)
  qed
  show ?thesis
    using char no_basis chain cycle by (simp add: hop_limit_def)
qed

text \<open>
  Witness for C3: the basis of \<open>sam-upa-gam\<close> is \<open>upa-gam\<close>, whose basis is \<open>gam\<close>, which
  has none; once the basis of \<open>gam\<close> is \<open>sam-upa-gam\<close> the traversal from \<open>sam-upa-gam\<close>
  fails.
\<close>

theorem ultimate_basis_ancestry_witness:
  "Root_basis example_DB sam_upa_gam = Some upa_gam
   \<and> Root_basis example_DB upa_gam = Some gam
   \<and> Root_basis example_DB gam = None
   \<and> ultimate_basis example_DB sam_upa_gam = Inr gam
   \<and> Root_basis cyclic_DB upa_gam = Some (gam\<lparr>basis_id := Some 9\<rparr>)
   \<and> Root_basis cyclic_DB (gam\<lparr>basis_id := Some 9\<rparr>) = Some sam_upa_gam
   \<and> ultimate_basis cyclic_DB sam_upa_gam = Inl CyclicBasis"
proof -
  have e1: "Root_basis example_DB sam_upa_gam = Some upa_gam"
    and e2: "Root_basis example_DB upa_gam = Some gam"
    and e3: "Root_basis example_DB gam = None"
    by (simp_all add: Root_basis_def many_to_one_def example_defs)
  have d: "distinct [SimpleBase.id sam_upa_gam, SimpleBase.id upa_gam, SimpleBase.id gam]"
    by (simp add: example_defs)
  have c1: "Root_basis cyclic_DB sam_upa_gam = Some upa_gam"
    and c2: "Root_basis cyclic_DB upa_gam = Some (gam\<lparr>basis_id := Some 9\<rparr>)"
    and c3: "Root_basis cyclic_DB (gam\<lparr>basis_id := Some 9\<rparr>) = Some sam_upa_gam"
    by (simp_all add: Root_basis_def many_to_one_def example_defs)
  have r1: "ultimate_basis example_DB sam_upa_gam = Inr gam"
    using e1 e2 e3 d
      ultimate_basis_ancestry [where db = example_DB and r = sam_upa_gam and u = gam
        and a = sam_upa_gam and b = upa_gam and c = gam and a' = sam_upa_gam]
    by blast
  have r2: "ultimate_basis cyclic_DB sam_upa_gam = Inl CyclicBasis"
    using c1 c2 c3
      ultimate_basis_ancestry [where db = cyclic_DB and r = sam_upa_gam and u = gam
        and a = sam_upa_gam and b = upa_gam and c = "gam\<lparr>basis_id := Some 9\<rparr>"
        and a' = sam_upa_gam]
    by blast
  show ?thesis
    using e1 e2 e3 c2 c3 r1 r2 by simp
qed

end
